theory Spec2Isabelle
  imports Main "HOL-Library.Sublist" "HOL-Library.Word"
begin

section \<open>Paths\<close>

text \<open>
  An \<open>fs::path\<close> is modelled by the list of its elements, in the order in which
  \<open>path::begin()\<close> .. \<open>path::end()\<close> yields them: the root directory, when the path
  has one, is the first element, and a path that ends with a separator has the empty
  element last. A string handed to the constructor of \<open>fs::path\<close> (a literal, the
  value of an environment variable, a buffer filled by the operating system) appears in
  the model as the path it denotes.

  \<open>path_append\<close> is \<open>buildPath /= element\<close> in the loop of \<open>EnsurePathExists\<close>,
  where \<open>buildPath\<close> holds the elements iterated so far (none of them the empty
  element, which comes last). \<open>path_join\<close> is \<open>operator/\<close> with a relative path: a
  separator is added only when the left path does not end with one.
  \<open>parent_path\<close> of a path that is only a root is that path.
\<close>

type_synonym path = "string list"

definition path_append :: "path \<Rightarrow> string \<Rightarrow> path" where
  "path_append p s = p @ [s]"

definition path_join :: "path \<Rightarrow> path \<Rightarrow> path" where
  "path_join p q = (if p \<noteq> [] \<and> last p = [] then butlast p @ q else p @ q)"

definition parent_path :: "path \<Rightarrow> path" where
  "parent_path p = (if p \<noteq> [] \<and> last p = ''/'' then p else butlast p)"

section \<open>The build: preprocessor macros\<close>

text \<open>
  The source selects its code with the preprocessor. A build is the set of macros the
  conditions of the source test; \<open>WINAPI_PARTITION_APP\<close> stands for the condition
  \<open>WINAPI_FAMILY_ONE_PARTITION(WINAPI_FAMILY, WINAPI_PARTITION_APP)\<close>.
\<close>

record macros =
  WIN32 :: bool
  WINAPI_PARTITION_APP :: bool
  APPLE :: bool
  ANDROID :: bool
  LINUX :: bool
  FREEBSD :: bool
  EMSCRIPTEN :: bool

section \<open>The host: error codes, file system, environment\<close>

text \<open>
  The values of the system headers: \<open>ERROR_FILE_NOT_FOUND\<close> and
  \<open>ERROR_ACCESS_DENIED\<close> of \<open>winerror.h\<close>, \<open>ENOENT\<close> and \<open>EACCES\<close> of
  \<open>errno.h\<close>. A \<open>std::error_code\<close> is its value; 0 is no error.
\<close>

definition ERROR_FILE_NOT_FOUND :: int where "ERROR_FILE_NOT_FOUND = 2"
definition ERROR_ACCESS_DENIED :: int where "ERROR_ACCESS_DENIED = 5"
definition ENOENT :: int where "ENOENT = 2"
definition EACCES :: int where "EACCES = 13"

text \<open>
  The exceptions of the module: the \<open>std::runtime_error\<close> that \<open>EnsurePathExists\<close>
  throws, with its message; the \<open>fs::filesystem_error\<close> that an overload of the
  file system library without an \<open>error_code\<close> parameter throws, with the path it
  failed on; and the construction of a path from a null pointer.
\<close>

datatype error =
  RuntimeError string
  | FilesystemError path
  | NullPointer

text \<open>
  The file system: the directories and the other files (regular files, for one) that
  are there, each under its canonical path (no empty element, no \<open>.\<close>, no \<open>..\<close>
  but leading ones of a relative path); the error code the existence query answers for
  a path as it is spelled (0: the query works and tells whether the path is present);
  and the paths, as spelled, that the operating system refuses to create. Only
  \<open>dirs\<close> ever changes. There are no symbolic links. The current working directory
  is the canonical path \<open>[]\<close> and is a directory.
\<close>

record filesystem =
  dirs :: "path set"
  files :: "path set"
  probe_fault :: "path \<Rightarrow> int"
  create_refused :: "path \<Rightarrow> bool"

definition is_dir :: "filesystem \<Rightarrow> path \<Rightarrow> bool" where
  "is_dir fsys c = (c = [] \<or> c \<in> dirs fsys)"

text \<open>
  One element of a path, looked up in the directory \<open>cur\<close>: the empty element and
  \<open>.\<close> stay, \<open>..\<close> goes to the parent (the root is its own parent), a name goes
  below.
\<close>

definition step :: "path \<Rightarrow> string \<Rightarrow> path" where
  "step cur x =
     (if x = [] \<or> x = ''.'' then cur
      else if x = ''..'' then
        (if cur = [] \<or> last cur = ''..'' then cur @ [''..'']
         else if last cur = ''/'' then cur
         else butlast cur)
      else cur @ [x])"

text \<open>
  The canonical path a spelling leads to. Every element is looked up in a directory
  that is there: where the walk meets something absent or a file that is no directory
  before the last element, the spelling leads nowhere (\<open>ENOENT\<close>, \<open>ENOTDIR\<close>).
\<close>

fun resolve :: "filesystem \<Rightarrow> path \<Rightarrow> string list \<Rightarrow> path option" where
  "resolve fsys cur [] = Some cur"
| "resolve fsys cur (x # xs) =
     (if is_dir fsys cur then resolve fsys (step cur x) xs else None)"

text \<open>What \<open>fs::exists\<close> finds: the spelling leads to a directory or another file.\<close>

definition present :: "filesystem \<Rightarrow> path \<Rightarrow> bool" where
  "present fsys p =
     (p \<noteq> [] \<and>
      (case resolve fsys [] p of
         None \<Rightarrow> False
       | Some c \<Rightarrow> c = [] \<or> c \<in> dirs fsys \<or> c \<in> files fsys))"

text \<open>What the module asks of the file system, in the order it asks.\<close>

datatype event =
  Probe path
  | Create path
  | CreateAll path



text \<open>\<open>fs::exists(p, ec)\<close>: the answer and the error code.\<close>

definition fs_exists :: "filesystem \<Rightarrow> path \<Rightarrow> bool \<times> int" where
  "fs_exists fsys p =
     (if probe_fault fsys p \<noteq> 0 then (False, probe_fault fsys p)
      else (present fsys p, 0))"

text \<open>
  \<open>fs::create_directory(p)\<close>, the overload without \<open>error_code\<close>: it creates the one
  directory \<open>p\<close> leads to, in a parent directory that must be there; it changes
  nothing (and returns false) when \<open>p\<close> leads to a directory already; it throws when
  \<open>p\<close> leads nowhere or to a file that is no directory, and when the operating
  system refuses.
\<close>

definition fs_create_directory :: "filesystem \<Rightarrow> path \<Rightarrow> error + filesystem" where
  "fs_create_directory fsys p =
     (if p = [] then Inl (FilesystemError p)
      else
        (case resolve fsys [] p of
           None \<Rightarrow> Inl (FilesystemError p)
         | Some c \<Rightarrow>
             if is_dir fsys c then Inr fsys
             else if c \<in> files fsys then Inl (FilesystemError p)
             else if create_refused fsys p then Inl (FilesystemError p)
             else Inr (fsys\<lparr>dirs := insert c (dirs fsys)\<rparr>)))"

text \<open>
  \<open>fs::create_directories(p, ec)\<close>: every missing prefix of \<open>p\<close> is created, the
  shortest first; the first failure ends the call, and the error goes to \<open>ec\<close>.
\<close>

fun create_each :: "filesystem \<Rightarrow> path list \<Rightarrow> filesystem" where
  "create_each fsys [] = fsys"
| "create_each fsys (p # ps) =
     (case fs_create_directory fsys p of
        Inl e \<Rightarrow> fsys
      | Inr fsys' \<Rightarrow> create_each fsys' ps)"

definition fs_create_directories :: "filesystem \<Rightarrow> path \<Rightarrow> filesystem" where
  "fs_create_directories fsys p = create_each fsys (tl (prefixes p))"

text \<open>
  What else the host answers: whether the query for the executable's path succeeds
  (\<open>GetModuleFileNameW\<close>, \<open>_NSGetExecutablePath\<close>, \<open>readlink\<close> of
  \<open>/proc/self/exe\<close>) and what the buffer \<open>path\<close> holds after the call (after a failed
  call: what it held before); the current working directory, if it can be determined;
  the environment variables; the resource path of the main bundle, if there is one.
\<close>

record environment =
  exe_query_ok :: bool
  exe_query_buffer :: path
  cwd :: "path option"
  getenv :: "string \<Rightarrow> path option"
  bundle_resource_path :: "path option"

text \<open>\<open>fs::current_path()\<close>, the overload without \<open>error_code\<close>.\<close>

definition fs_current_path :: "environment \<Rightarrow> error + path" where
  "fs_current_path env =
     (case cwd env of None \<Rightarrow> Inl (FilesystemError []) | Some p \<Rightarrow> Inr p)"

section \<open>EnsurePathExists\<close>

type_synonym 'a fs_outcome = "(error + 'a) \<times> filesystem \<times> event list"

text \<open>Lines 319 to 322: the directory is created when it is not deemed present.\<close>

definition create_if_absent :: "filesystem \<Rightarrow> path \<Rightarrow> bool \<Rightarrow> unit fs_outcome" where
  "create_if_absent fsys buildPath exists =
     (if \<not> exists then
        (case fs_create_directory fsys buildPath of
           Inl e \<Rightarrow> (Inl e, fsys, [Probe buildPath, Create buildPath])
         | Inr fsys' \<Rightarrow> (Inr (), fsys', [Probe buildPath, Create buildPath]))
      else (Inr (), fsys, [Probe buildPath]))"

text \<open>Lines 294 to 322: the body of the loop, for the prefix \<open>buildPath\<close>.\<close>

definition ensure_segment :: "macros \<Rightarrow> filesystem \<Rightarrow> path \<Rightarrow> unit fs_outcome" where
  "ensure_segment m fsys buildPath =
     (let (exists, existsErrorCode) = fs_exists fsys buildPath in
      if existsErrorCode \<noteq> 0 then
        (if WIN32 m then
           (if existsErrorCode = ERROR_ACCESS_DENIED then (Inr (), fsys, [Probe buildPath])
            else if existsErrorCode = ERROR_FILE_NOT_FOUND then create_if_absent fsys buildPath False
            else (Inl (RuntimeError ''Couldn't ensure that path exists.''), fsys, [Probe buildPath]))
         else
           (if existsErrorCode = ENOENT then create_if_absent fsys buildPath False
            else (Inl (RuntimeError ''Couldn't ensure that path exists.''), fsys, [Probe buildPath])))
      else create_if_absent fsys buildPath exists)"

text \<open>The loop of lines 290 to 323, over the elements still to come.\<close>

fun ensure_loop :: "macros \<Rightarrow> path \<Rightarrow> string list \<Rightarrow> filesystem \<Rightarrow> unit fs_outcome" where
  "ensure_loop m buildPath [] fsys = (Inr (), fsys, [])"
| "ensure_loop m buildPath (seg # rest) fsys =
     (case ensure_segment m fsys (path_append buildPath seg) of
        (Inl e, fsys', ev) \<Rightarrow> (Inl e, fsys', ev)
      | (Inr u, fsys', ev) \<Rightarrow>
          (case ensure_loop m (path_append buildPath seg) rest fsys' of
             (r, fsys'', ev') \<Rightarrow> (r, fsys'', ev @ ev')))"

definition EnsurePathExists :: "macros \<Rightarrow> path \<Rightarrow> filesystem \<Rightarrow> unit fs_outcome" where
  "EnsurePathExists m p fsys = ensure_loop m [] p fsys"

section \<open>The executable's directory and the base directory\<close>

text \<open>Lines 19 to 49. The Windows branch does not look at what the query returns.\<close>

definition GetExecutableDirectory :: "macros \<Rightarrow> environment \<Rightarrow> error + path" where
  "GetExecutableDirectory m env =
     (if WIN32 m then Inr (parent_path (exe_query_buffer env))
      else if APPLE m then
        (if exe_query_ok env then Inr (parent_path (exe_query_buffer env))
         else fs_current_path env)
      else if LINUX m \<or> FREEBSD m then
        (if exe_query_ok env then Inr (parent_path (exe_query_buffer env))
         else fs_current_path env)
      else fs_current_path env)"

text \<open>
  The variables of static storage duration: the two of
  \<open>GetTeknoParrotBaseDirectory\<close> and the two of the Android section.
\<close>

record statics =
  teknoParrotPath :: path
  initialized :: bool
  s_filesDirPath :: path
  s_cacheDirPath :: path

type_synonym 'a outcome = "(error + 'a) \<times> statics \<times> filesystem \<times> event list"

text \<open>
  Lines 52 to 72. An exception of \<open>GetExecutableDirectory\<close> leaves the function before
  anything is assigned; the error code of \<open>fs::exists\<close> and of
  \<open>fs::create_directories\<close> is not looked at.
\<close>

definition GetTeknoParrotBaseDirectory ::
    "macros \<Rightarrow> statics \<Rightarrow> environment \<Rightarrow> filesystem \<Rightarrow> path outcome" where
  "GetTeknoParrotBaseDirectory m st env fsys =
     (if \<not> initialized st then
        (case GetExecutableDirectory m env of
           Inl e \<Rightarrow> (Inl e, st, fsys, [])
         | Inr d \<Rightarrow>
            (let tp = path_join d [''TeknoParrot''];
                 st1 = st\<lparr>teknoParrotPath := tp\<rparr>;
                 (exists, ec) = fs_exists fsys tp;
                 (fsys', ev) =
                    (if \<not> exists
                     then (fs_create_directories fsys tp, [Probe tp, CreateAll tp])
                     else (fsys, [Probe tp]))
             in (Inr tp, st1\<lparr>initialized := True\<rparr>, fsys', ev)))
      else (Inr (teknoParrotPath st), st, fsys, []))"

section \<open>The role resolvers\<close>

text \<open>
  The sections of lines 74 to 284, as the \<open>#if\<close> chain selects them. A function that
  the selected section does not define is \<open>None\<close> in that build.
\<close>

datatype build_section =
  SecWinApp
  | SecWinDesktop
  | SecApple
  | SecAndroid
  | SecLinux
  | SecOther

definition section_of :: "macros \<Rightarrow> build_section" where
  "section_of m =
     (if WIN32 m then (if WINAPI_PARTITION_APP m then SecWinApp else SecWinDesktop)
      else if APPLE m then SecApple
      else if ANDROID m then SecAndroid
      else if LINUX m \<or> FREEBSD m \<or> EMSCRIPTEN m then SecLinux
      else SecOther)"

text \<open>
  The three lines every resolver under the base directory consists of:
  \<open>auto path = GetTeknoParrotBaseDirectory() / ...; EnsurePathExists(path); return path;\<close>
\<close>

definition ensured_under_base ::
    "macros \<Rightarrow> string list \<Rightarrow> statics \<Rightarrow> environment \<Rightarrow> filesystem \<Rightarrow> path outcome" where
  "ensured_under_base m sub st env fsys =
     (case GetTeknoParrotBaseDirectory m st env fsys of
        (Inl e, st', fsys', ev) \<Rightarrow> (Inl e, st', fsys', ev)
      | (Inr base, st', fsys', ev) \<Rightarrow>
          (case EnsurePathExists m (path_join base sub) fsys' of
             (Inl e, fsys'', ev') \<Rightarrow> (Inl e, st', fsys'', ev @ ev')
           | (Inr u, fsys'', ev') \<Rightarrow> (Inr (path_join base sub), st', fsys'', ev @ ev')))"

definition GetRoamingDataPath ::
    "macros \<Rightarrow> statics \<Rightarrow> environment \<Rightarrow> filesystem \<Rightarrow> path outcome option" where
  "GetRoamingDataPath m st env fsys =
     (case section_of m of
        SecWinApp \<Rightarrow> None
      | SecWinDesktop \<Rightarrow> Some (ensured_under_base m [''AppData'', ''Roaming''] st env fsys)
      | SecApple \<Rightarrow> Some (ensured_under_base m [''AppData'', ''Roaming''] st env fsys)
      | SecAndroid \<Rightarrow> Some (ensured_under_base m [''AppData'', ''Roaming''] st env fsys)
      | SecLinux \<Rightarrow> Some (ensured_under_base m [''AppData'', ''Roaming''] st env fsys)
      | SecOther \<Rightarrow> None)"

definition GetPersonalDataPath ::
    "macros \<Rightarrow> statics \<Rightarrow> environment \<Rightarrow> filesystem \<Rightarrow> path outcome option" where
  "GetPersonalDataPath m st env fsys =
     (case section_of m of
        SecWinApp \<Rightarrow> Some (ensured_under_base m [''AppData'', ''Local''] st env fsys)
      | SecWinDesktop \<Rightarrow> Some (ensured_under_base m [''Documents''] st env fsys)
      | SecApple \<Rightarrow> Some (ensured_under_base m [''Documents''] st env fsys)
      | SecAndroid \<Rightarrow> Some (ensured_under_base m [''Documents''] st env fsys)
      | SecLinux \<Rightarrow> Some (ensured_under_base m [''Documents''] st env fsys)
      | SecOther \<Rightarrow> Some (ensured_under_base m [''Documents''] st env fsys))"

definition GetCachePath ::
    "macros \<Rightarrow> statics \<Rightarrow> environment \<Rightarrow> filesystem \<Rightarrow> path outcome option" where
  "GetCachePath m st env fsys =
     (case section_of m of
        SecWinApp \<Rightarrow> None
      | SecWinDesktop \<Rightarrow>
          Some (ensured_under_base m [''AppData'', ''Local'', ''Cache''] st env fsys)
      | SecApple \<Rightarrow> Some (ensured_under_base m [''Cache''] st env fsys)
      | SecAndroid \<Rightarrow> Some (ensured_under_base m [''Cache''] st env fsys)
      | SecLinux \<Rightarrow> Some (ensured_under_base m [''Cache''] st env fsys)
      | SecOther \<Rightarrow> None)"

text \<open>Lines 239 to 249: the Flatpak directory, then the executable's directory.\<close>

definition flatpak_or_executable ::
    "macros \<Rightarrow> statics \<Rightarrow> environment \<Rightarrow> filesystem \<Rightarrow> path outcome" where
  "flatpak_or_executable m st env fsys =
     (let flatpakPath = [''/'', ''app'', ''share''];
          (exists, existsErrorCode) = fs_exists fsys flatpakPath
      in if existsErrorCode = 0 \<and> exists then (Inr flatpakPath, st, fsys, [Probe flatpakPath])
         else (GetExecutableDirectory m env, st, fsys, [Probe flatpakPath]))"

text \<open>
  Lines 226 to 250. \<open>getenv("APPDIR")\<close> goes to the constructor of \<open>fs::path\<close>
  unchecked: a null pointer there is no path.
\<close>

definition GetAppResourcesPath_linux ::
    "macros \<Rightarrow> statics \<Rightarrow> environment \<Rightarrow> filesystem \<Rightarrow> path outcome" where
  "GetAppResourcesPath_linux m st env fsys =
     (if getenv env ''APPIMAGE'' \<noteq> None then
        (case getenv env ''APPDIR'' of
           None \<Rightarrow> (Inl NullPointer, st, fsys, [])
         | Some appdir \<Rightarrow>
            (let appImagePath = path_join appdir [''usr'', ''share''];
                 (exists, ec) = fs_exists fsys appImagePath
             in if exists \<and> ec = 0 then (Inr appImagePath, st, fsys, [Probe appImagePath])
                else (case flatpak_or_executable m st env fsys of
                        (r, st', fsys', ev) \<Rightarrow> (r, st', fsys', Probe appImagePath # ev))))
      else flatpak_or_executable m st env fsys)"

definition GetAppResourcesPath ::
    "macros \<Rightarrow> statics \<Rightarrow> environment \<Rightarrow> filesystem \<Rightarrow> path outcome option" where
  "GetAppResourcesPath m st env fsys =
     (case section_of m of
        SecWinApp \<Rightarrow> None
      | SecWinDesktop \<Rightarrow> Some (GetExecutableDirectory m env, st, fsys, [])
      | SecApple \<Rightarrow>
          (case bundle_resource_path env of
             Some bundlePath \<Rightarrow> Some (Inr bundlePath, st, fsys, [])
           | None \<Rightarrow> Some (GetExecutableDirectory m env, st, fsys, []))
      | SecAndroid \<Rightarrow> Some (GetTeknoParrotBaseDirectory m st env fsys)
      | SecLinux \<Rightarrow> Some (GetAppResourcesPath_linux m st env fsys)
      | SecOther \<Rightarrow> None)"

text \<open>Lines 210 to 220, of the Android section only.\<close>

definition SetFilesDirPath :: "macros \<Rightarrow> path \<Rightarrow> statics \<Rightarrow> statics option" where
  "SetFilesDirPath m filesDirPath st =
     (case section_of m of
        SecAndroid \<Rightarrow> Some (st\<lparr>s_filesDirPath := filesDirPath\<rparr>)
      | _ \<Rightarrow> None)"

definition SetCacheDirPath :: "macros \<Rightarrow> path \<Rightarrow> statics \<Rightarrow> statics option" where
  "SetCacheDirPath m cacheDirPath st =
     (case section_of m of
        SecAndroid \<Rightarrow> Some (st\<lparr>s_cacheDirPath := cacheDirPath\<rparr>)
      | _ \<Rightarrow> None)"

section \<open>The bridge between paths and native strings\<close>

text \<open>
  Modelled from the spec: \<open>Framework::Utf8::ConvertTo\<close> and
  \<open>Framework::Utf8::ConvertFrom\<close> (\<open>Utf8.h\<close>), which the source calls and which are
  not among the source files. The spec has them "convert to/from UTF-8 using a standard
  Unicode transformation" where the native representation is "a wide-character sequence"
  ("typically UTF-16"), and leaves malformed or unpaired surrogates to "the underlying
  routine's own error policy". A wide character is a 16-bit unit of UTF-16, a byte of a
  \<open>std::string\<close> is a \<open>char\<close>. \<open>ConvertTo\<close> reads the units as UTF-16 (a surrogate
  pair is one code point) and writes the UTF-8 form of each code point; \<open>ConvertFrom\<close>
  reads UTF-8 and writes UTF-16. Both reject (\<open>None\<close>) what is malformed.
\<close>

type_synonym wchar = "16 word"

text \<open>
  Modelled from the spec: the Unicode scalar values (code points up to 10FFFF that are
  not surrogates).
\<close>

definition valid_scalar :: "nat \<Rightarrow> bool" where
  "valid_scalar c = (c < 1114112 \<and> \<not> (55296 \<le> c \<and> c < 57344))"

text \<open>Modelled from the spec: the high and low surrogates of UTF-16.\<close>

definition high_surrogate :: "nat \<Rightarrow> bool" where
  "high_surrogate u = (55296 \<le> u \<and> u < 56320)"

definition low_surrogate :: "nat \<Rightarrow> bool" where
  "low_surrogate u = (56320 \<le> u \<and> u < 57344)"

text \<open>Modelled from the spec: the code points of a sequence of UTF-16 units.\<close>

fun utf16_decode :: "nat list \<Rightarrow> nat list option" where
  "utf16_decode [] = Some []"
| "utf16_decode (u # us) =
     (if high_surrogate u then
        (case us of
           l # r \<Rightarrow>
             if low_surrogate l
             then map_option ((#) (65536 + (u - 55296) * 1024 + (l - 56320))) (utf16_decode r)
             else None
         | [] \<Rightarrow> None)
      else if low_surrogate u then None
      else map_option ((#) u) (utf16_decode us))"

text \<open>Modelled from the spec: the UTF-16 form of one code point.\<close>

definition utf16_encode :: "nat \<Rightarrow> nat list" where
  "utf16_encode c =
     (if c < 65536 then [c]
      else [55296 + (c - 65536) div 1024, 56320 + (c - 65536) mod 1024])"

text \<open>Modelled from the spec: the continuation bytes of UTF-8, 10xxxxxx.\<close>

definition continuation :: "nat \<Rightarrow> bool" where
  "continuation b = (128 \<le> b \<and> b < 192)"

text \<open>Modelled from the spec: the UTF-8 form of one code point.\<close>

definition utf8_encode :: "nat \<Rightarrow> nat list" where
  "utf8_encode c =
     (if c < 128 then [c]
      else if c < 2048 then [192 + c div 64, 128 + c mod 64]
      else if c < 65536 then [224 + c div 4096, 128 + c div 64 mod 64, 128 + c mod 64]
      else [240 + c div 262144, 128 + c div 4096 mod 64, 128 + c div 64 mod 64, 128 + c mod 64])"

text \<open>Modelled from the spec: the code points of a sequence of bytes in UTF-8.\<close>

fun utf8_decode :: "nat list \<Rightarrow> nat list option" where
  "utf8_decode [] = Some []"
| "utf8_decode (b0 # bs) =
     (if b0 < 128 then map_option ((#) b0) (utf8_decode bs)
      else if 192 \<le> b0 \<and> b0 < 224 then
        (case bs of
           b1 # r \<Rightarrow>
             (let c = (b0 - 192) * 64 + (b1 - 128)
              in if continuation b1 \<and> 128 \<le> c
                 then map_option ((#) c) (utf8_decode r) else None)
         | _ \<Rightarrow> None)
      else if 224 \<le> b0 \<and> b0 < 240 then
        (case bs of
           b1 # b2 # r \<Rightarrow>
             (let c = (b0 - 224) * 4096 + (b1 - 128) * 64 + (b2 - 128)
              in if continuation b1 \<and> continuation b2 \<and> 2048 \<le> c \<and> valid_scalar c
                 then map_option ((#) c) (utf8_decode r) else None)
         | _ \<Rightarrow> None)
      else if 240 \<le> b0 \<and> b0 < 248 then
        (case bs of
           b1 # b2 # b3 # r \<Rightarrow>
             (let c = (b0 - 240) * 262144 + (b1 - 128) * 4096 + (b2 - 128) * 64 + (b3 - 128)
              in if continuation b1 \<and> continuation b2 \<and> continuation b3 \<and>
                    65536 \<le> c \<and> valid_scalar c
                 then map_option ((#) c) (utf8_decode r) else None)
         | _ \<Rightarrow> None)
      else None)"

text \<open>Modelled from the spec: \<open>Utf8::ConvertTo\<close>, absent from the source files.\<close>

definition Utf8_ConvertTo :: "wchar list \<Rightarrow> string option" where
  "Utf8_ConvertTo input =
     map_option (\<lambda>cs. map char_of (concat (map utf8_encode cs)))
       (utf16_decode (map unat input))"

text \<open>Modelled from the spec: \<open>Utf8::ConvertFrom\<close>, absent from the source files.\<close>

definition Utf8_ConvertFrom :: "string \<Rightarrow> wchar list option" where
  "Utf8_ConvertFrom input =
     map_option (\<lambda>cs. map of_nat (concat (map utf16_encode cs)))
       (utf8_decode (map of_char input))"

text \<open>
  Lines 330 to 373. \<open>fs::path::string_type\<close> is \<open>std::string\<close> or \<open>std::wstring\<close>,
  as the platform has it; for the bridge a path is its \<open>native()\<close> string, and the
  constructor of \<open>fs::path\<close> wraps such a string. A conversion that rejects its input
  leaves the function with an exception: \<open>None\<close>.
\<close>

datatype string_type = StdString | StdWString

datatype native_path = NarrowPath string | WidePath "wchar list"

fun native_type :: "native_path \<Rightarrow> string_type" where
  "native_type (NarrowPath s) = StdString"
| "native_type (WidePath w) = StdWString"

definition GetNativeStringFromPathInternal_string :: "string \<Rightarrow> string option" where
  "GetNativeStringFromPathInternal_string str = Some str"

definition GetNativeStringFromPathInternal_wstring :: "wchar list \<Rightarrow> string option" where
  "GetNativeStringFromPathInternal_wstring str = Utf8_ConvertTo str"

definition GetPathFromNativeStringInternal_string :: "string \<Rightarrow> string option" where
  "GetPathFromNativeStringInternal_string str = Some str"

definition GetPathFromNativeStringInternal_wstring :: "string \<Rightarrow> wchar list option" where
  "GetPathFromNativeStringInternal_wstring str = Utf8_ConvertFrom str"

definition GetNativeStringFromPath :: "native_path \<Rightarrow> string option" where
  "GetNativeStringFromPath p =
     (case p of
        NarrowPath s \<Rightarrow> GetNativeStringFromPathInternal_string s
      | WidePath w \<Rightarrow> GetNativeStringFromPathInternal_wstring w)"

definition GetPathFromNativeString :: "string_type \<Rightarrow> string \<Rightarrow> native_path option" where
  "GetPathFromNativeString t str =
     (case t of
        StdString \<Rightarrow> map_option NarrowPath (GetPathFromNativeStringInternal_string str)
      | StdWString \<Rightarrow> map_option WidePath (GetPathFromNativeStringInternal_wstring str))"

text \<open>
  Modelled from the spec: a sequence of UTF-16 units in which every surrogate is half of
  a pair, high then low (nothing "malformed or unpaired").
\<close>

fun paired_surrogates :: "nat list \<Rightarrow> bool" where
  "paired_surrogates [] = True"
| "paired_surrogates (u # us) =
     (if high_surrogate u then
        (case us of l # r \<Rightarrow> low_surrogate l \<and> paired_surrogates r | [] \<Rightarrow> False)
      else \<not> low_surrogate u \<and> paired_surrogates us)"

text \<open>
  A path constructible from valid portable characters: any byte string, and any wide
  string that is well-formed UTF-16.
\<close>

definition portable :: "native_path \<Rightarrow> bool" where
  "portable p =
     (case p of NarrowPath s \<Rightarrow> True | WidePath w \<Rightarrow> paired_surrogates (map unat w))"

section \<open>Vocabulary of the properties\<close>

text \<open>The path an event is about.\<close>

fun event_path :: "event \<Rightarrow> path" where
  "event_path (Probe p) = p"
| "event_path (Create p) = p"
| "event_path (CreateAll p) = p"

text \<open>The values \<open>buildPath\<close> takes in the loop of \<open>EnsurePathExists\<close>, in order.\<close>

fun build_paths :: "path \<Rightarrow> string list \<Rightarrow> path list" where
  "build_paths buildPath [] = []"
| "build_paths buildPath (seg # rest) =
     path_append buildPath seg # build_paths (path_append buildPath seg) rest"

text \<open>
  An error code of the existence query that the build has no branch for: not zero,
  not the not-found code, and on Windows not the access-denied code.
\<close>

definition unexpected_probe_error :: "macros \<Rightarrow> int \<Rightarrow> bool" where
  "unexpected_probe_error m ec =
     (ec \<noteq> 0 \<and>
      (if WIN32 m then ec \<noteq> ERROR_ACCESS_DENIED \<and> ec \<noteq> ERROR_FILE_NOT_FOUND
       else ec \<noteq> ENOENT))"

text \<open>
  What sends the loop to \<open>fs::create_directory\<close>: the probe answers "absent" without
  an error, or it answers the not-found code of the build.
\<close>

definition deemed_absent :: "macros \<Rightarrow> filesystem \<Rightarrow> path \<Rightarrow> bool" where
  "deemed_absent m fsys p =
     (if probe_fault fsys p = 0 then \<not> present fsys p
      else if WIN32 m then probe_fault fsys p = ERROR_FILE_NOT_FOUND
      else probe_fault fsys p = ENOENT)"

text \<open>
  An outcome of a getter with \<open>g\<close> applied to the statics it leaves; and what it
  means for \<open>g\<close> to touch neither static of the base directory.
\<close>

definition with_statics :: "(statics \<Rightarrow> statics) \<Rightarrow> 'a outcome option \<Rightarrow> 'a outcome option" where
  "with_statics g out = map_option (\<lambda>(r, st', fsys', ev). (r, g st', fsys', ev)) out"

definition injected :: "(statics \<Rightarrow> statics) \<Rightarrow> bool" where
  "injected g = (\<forall>st. teknoParrotPath (g st) = teknoParrotPath st \<and>
                     initialized (g st) = initialized st \<and>
                     (\<forall>p. g (st\<lparr>teknoParrotPath := p\<rparr>) = (g st)\<lparr>teknoParrotPath := p\<rparr>) \<and>
                     (\<forall>b. g (st\<lparr>initialized := b\<rparr>) = (g st)\<lparr>initialized := b\<rparr>))"

section \<open>Builds, hosts and file systems of the examples\<close>

definition posix_build :: macros where
  "posix_build = \<lparr>WIN32 = False, WINAPI_PARTITION_APP = False, APPLE = False, ANDROID = False,
     LINUX = True, FREEBSD = False, EMSCRIPTEN = False\<rparr>"

definition windows_build :: macros where
  "windows_build = \<lparr>WIN32 = True, WINAPI_PARTITION_APP = False, APPLE = False, ANDROID = False,
     LINUX = False, FREEBSD = False, EMSCRIPTEN = False\<rparr>"


definition android_build :: macros where
  "android_build = \<lparr>WIN32 = False, WINAPI_PARTITION_APP = False, APPLE = False, ANDROID = True,
     LINUX = True, FREEBSD = False, EMSCRIPTEN = False\<rparr>"

text \<open>
  A root directory and, below it, a path \<open>/locked\<close> for which the existence query
  answers the given error code.
\<close>

definition locked_fs :: "int \<Rightarrow> filesystem" where
  "locked_fs code = \<lparr>dirs = {[''/'']}, files = {},
     probe_fault = (\<lambda>p. if p = [''/'', ''locked''] then code else 0),
     create_refused = (\<lambda>p. False)\<rparr>"

text \<open>A root directory in which nothing can be created.\<close>

definition readonly_fs :: filesystem where
  "readonly_fs = \<lparr>dirs = {[''/'']}, files = {}, probe_fault = (\<lambda>p. 0), create_refused = (\<lambda>p. True)\<rparr>"

text \<open>A file system with the given directories, in which every query works.\<close>

definition plain_fs :: "path set \<Rightarrow> filesystem" where
  "plain_fs ds = \<lparr>dirs = ds, files = {}, probe_fault = (\<lambda>p. 0), create_refused = (\<lambda>p. False)\<rparr>"

text \<open>The statics at the start of the process.\<close>

definition initial_statics :: statics where
  "initial_statics = \<lparr>teknoParrotPath = [], initialized = False,
     s_filesDirPath = [], s_cacheDirPath = []\<rparr>"

text \<open>
  A host whose query reports the executable \<open>/opt/app/play\<close>, and a host whose query
  fails and leaves the buffer as it was, with the given current working directory.
\<close>

definition installed_env :: environment where
  "installed_env = \<lparr>exe_query_ok = True, exe_query_buffer = [''/'', ''opt'', ''app'', ''play''],
     cwd = Some [''/'', ''home''], getenv = (\<lambda>v. None), bundle_resource_path = None\<rparr>"

definition failed_query_env :: "path option \<Rightarrow> environment" where
  "failed_query_env dir = \<lparr>exe_query_ok = False, exe_query_buffer = [''?'', ''?''],
     cwd = dir, getenv = (\<lambda>v. None), bundle_resource_path = None\<rparr>"

text \<open>The directory of the executable \<open>/opt/app/play\<close>, where nothing can be created.\<close>

definition readonly_install_fs :: filesystem where
  "readonly_install_fs = \<lparr>dirs = {[''/'', ''opt'', ''app''], [''/'', ''opt''], [''/'']},
     files = {}, probe_fault = (\<lambda>p. 0), create_refused = (\<lambda>p. True)\<rparr>"

text \<open>A host that runs the program from an AppImage mounted at \<open>/tmp/mnt\<close>.\<close>

definition appimage_env :: environment where
  "appimage_env = \<lparr>exe_query_ok = True,
     exe_query_buffer = [''/'', ''tmp'', ''mnt'', ''usr'', ''bin'', ''play''],
     cwd = Some [''/'', ''home''],
     getenv = (\<lambda>v. if v = ''APPIMAGE'' then Some [''/'', ''home'', ''play.AppImage'']
                    else if v = ''APPDIR'' then Some [''/'', ''tmp'', ''mnt''] else None),
     bundle_resource_path = None\<rparr>"

text \<open>A host on which \<open>APPIMAGE\<close> is set and \<open>APPDIR\<close> is not.\<close>

definition appimage_only_env :: environment where
  "appimage_only_env = \<lparr>exe_query_ok = True,
     exe_query_buffer = [''/'', ''opt'', ''app'', ''play''],
     cwd = Some [''/'', ''home''],
     getenv = (\<lambda>v. if v = ''APPIMAGE'' then Some [''/'', ''home'', ''play.AppImage''] else None),
     bundle_resource_path = None\<rparr>"

section \<open>The loop of EnsurePathExists: frame, events, composition\<close>

lemma prefixes_hd_tl: "prefixes xs = [] # tl (prefixes xs)"
  by (cases xs) simp_all

lemma build_paths_prefixes: "build_paths bp segs = map ((@) bp) (tl (prefixes segs))"
proof (induction segs arbitrary: bp)
  case Nil
  show ?case by simp
next
  case (Cons s ss)
  have "prefixes ss = [] # tl (prefixes ss)" by (rule prefixes_hd_tl)
  then have "map ((#) s) (prefixes ss) = [s] # map ((#) s) (tl (prefixes ss))"
    by (metis list.simps(9))
  then show ?case by (simp add: Cons.IH path_append_def)
qed

lemma build_paths_root: "build_paths [] p = tl (prefixes p)"
proof -
  have "(@) ([]::path) = (\<lambda>x. x)" by (rule ext) simp
  then show ?thesis by (simp add: build_paths_prefixes)
qed

lemma length_build_paths [simp]: "length (build_paths bp segs) = length segs"
  by (induction segs arbitrary: bp) simp_all

lemma build_paths_append:
  "build_paths bp (xs @ ys) = build_paths bp xs @ build_paths (bp @ xs) ys"
  by (induction xs arbitrary: bp) (simp_all add: path_append_def)

lemma build_paths_longer: "p \<in> set (build_paths bp segs) \<Longrightarrow> length bp < length p"
proof (induction segs arbitrary: bp)
  case Nil
  then show ?case by simp
next
  case (Cons s ss)
  from Cons.prems have "p = bp @ [s] \<or> p \<in> set (build_paths (bp @ [s]) ss)"
    by (simp add: path_append_def)
  then show ?case
  proof
    assume "p = bp @ [s]"
    then show ?thesis by simp
  next
    assume "p \<in> set (build_paths (bp @ [s]) ss)"
    from Cons.IH[OF this] show ?thesis by simp
  qed
qed


subsection \<open>Spellings and what they lead to\<close>

lemma resolve_append:
  "resolve f cur (xs @ ys) =
     (case resolve f cur xs of None \<Rightarrow> None | Some d \<Rightarrow> resolve f d ys)"
  by (induction xs arbitrary: cur) simp_all

lemma resolve_snoc:
  "resolve f cur (xs @ [x]) =
     (case resolve f cur xs of
        None \<Rightarrow> None
      | Some d \<Rightarrow> if is_dir f d then Some (step d x) else None)"
  by (simp add: resolve_append split: option.splits)

lemma resolve_mono:
  "dirs f \<subseteq> dirs g \<Longrightarrow> resolve f cur xs = Some c \<Longrightarrow> resolve g cur xs = Some c"
proof (induction xs arbitrary: cur)
  case Nil
  then show ?case by simp
next
  case (Cons x xs)
  from Cons.prems(2) have d: "is_dir f cur" and r: "resolve f (step cur x) xs = Some c"
    by (simp_all split: if_splits)
  from d Cons.prems(1) have "is_dir g cur" by (auto simp: is_dir_def)
  with Cons.IH[OF Cons.prems(1) r] show ?case by simp
qed

lemma present_mono:
  assumes "dirs f \<subseteq> dirs g" "files g = files f" "present f p"
  shows "present g p"
proof -
  from assms(3) obtain c where ne: "p \<noteq> []" and c: "resolve f [] p = Some c"
    and there: "c = [] \<or> c \<in> dirs f \<or> c \<in> files f"
    by (auto simp: present_def split: option.splits)
  from resolve_mono[OF assms(1) c] have "resolve g [] p = Some c" .
  moreover from there assms(1,2) have "c = [] \<or> c \<in> dirs g \<or> c \<in> files g" by auto
  ultimately show ?thesis using ne by (simp add: present_def)
qed

subsection \<open>The creation of one directory\<close>

lemma fs_create_directory_frame:
  assumes "fs_create_directory f p = Inr f'"
  shows "probe_fault f' = probe_fault f" "create_refused f' = create_refused f"
    "files f' = files f" "dirs f \<subseteq> dirs f'" "\<exists>cs. length cs \<le> 1 \<and> dirs f' = dirs f \<union> set cs"
proof -
  from assms have ne: "p \<noteq> []" by (auto simp: fs_create_directory_def split: if_splits)
  from assms ne obtain c where c: "resolve f [] p = Some c"
    by (auto simp: fs_create_directory_def split: option.splits)
  from assms ne c have "f' = f \<or> f' = f\<lparr>dirs := insert c (dirs f)\<rparr>"
    by (auto simp: fs_create_directory_def split: if_splits)
  then show "probe_fault f' = probe_fault f" "create_refused f' = create_refused f"
    "files f' = files f" "dirs f \<subseteq> dirs f'" by auto
  from \<open>f' = f \<or> f' = f\<lparr>dirs := insert c (dirs f)\<rparr>\<close>
  show "\<exists>cs. length cs \<le> 1 \<and> dirs f' = dirs f \<union> set cs"
  proof
    assume "f' = f"
    then show ?thesis by (intro exI[of _ "[]"]) simp
  next
    assume "f' = f\<lparr>dirs := insert c (dirs f)\<rparr>"
    then show ?thesis by (intro exI[of _ "[c]"]) simp
  qed
qed

lemma fs_create_directory_present:
  assumes "fs_create_directory f p = Inr f'"
  shows "present f' p"
proof -
  from assms have ne: "p \<noteq> []" by (auto simp: fs_create_directory_def split: if_splits)
  from assms ne obtain c where c: "resolve f [] p = Some c"
    by (auto simp: fs_create_directory_def split: option.splits)
  from fs_create_directory_frame(4)[OF assms] c have c': "resolve f' [] p = Some c"
    by (rule resolve_mono)
  from assms ne c have "is_dir f' c"
    by (auto simp: fs_create_directory_def is_dir_def split: if_splits)
  with ne c' show ?thesis by (auto simp: present_def is_dir_def)
qed

lemma fs_create_directory_Inl:
  "fs_create_directory f p = Inl e \<Longrightarrow> e = FilesystemError p"
  by (auto simp: fs_create_directory_def split: if_splits option.splits)

lemma fs_create_directory_again:
  assumes first: "fs_create_directory f p = Inr fa"
    and grown: "dirs fa \<subseteq> dirs g"
  shows "fs_create_directory g p = Inr g"
proof -
  from first have ne: "p \<noteq> []" by (auto simp: fs_create_directory_def split: if_splits)
  from first ne obtain c where c: "resolve f [] p = Some c"
    by (auto simp: fs_create_directory_def split: option.splits)
  from fs_create_directory_frame(4)[OF first] grown have fg: "dirs f \<subseteq> dirs g" by simp
  from resolve_mono[OF fg c] have cg: "resolve g [] p = Some c" .
  from first ne c have "is_dir fa c"
    by (auto simp: fs_create_directory_def is_dir_def split: if_splits)
  with grown have "is_dir g c" by (auto simp: is_dir_def)
  with ne cg show ?thesis by (simp add: fs_create_directory_def)
qed

subsection \<open>One prefix\<close>

lemma create_if_absent_cases:
  "create_if_absent f q ex =
     (if ex then (Inr (), f, [Probe q])
      else case fs_create_directory f q of
             Inl e \<Rightarrow> (Inl e, f, [Probe q, Create q])
           | Inr f' \<Rightarrow> (Inr (), f', [Probe q, Create q]))"
  by (simp add: create_if_absent_def)

text \<open>The body of the loop, by what the probe answers.\<close>

lemma ensure_segment_cases:
  "ensure_segment m f q =
     (if unexpected_probe_error m (probe_fault f q)
      then (Inl (RuntimeError ''Couldn't ensure that path exists.''), f, [Probe q])
      else if deemed_absent m f q then
        (case fs_create_directory f q of
           Inl e \<Rightarrow> (Inl e, f, [Probe q, Create q])
         | Inr f' \<Rightarrow> (Inr (), f', [Probe q, Create q]))
      else (Inr (), f, [Probe q]))"
  by (auto simp: ensure_segment_def create_if_absent_def fs_exists_def unexpected_probe_error_def
      deemed_absent_def ERROR_ACCESS_DENIED_def ERROR_FILE_NOT_FOUND_def Let_def
      split: sum.splits)

lemma ensure_segment_frame:
  assumes "ensure_segment m f q = (r, f', ev)"
  shows "probe_fault f' = probe_fault f" "create_refused f' = create_refused f"
    "files f' = files f" "dirs f \<subseteq> dirs f'"
  using assms
  by (auto simp: ensure_segment_cases split: if_splits sum.splits
      dest: fs_create_directory_frame)

lemma ensure_segment_throw_unchanged:
  "ensure_segment m f q = (Inl e, f', ev) \<Longrightarrow> f' = f"
  by (auto simp: ensure_segment_cases split: if_splits sum.splits)


lemma ensure_segment_present:
  assumes "ensure_segment m f q = (Inr u, f1, e)" "q \<noteq> []"
  shows "present f1 q \<or> (WIN32 m \<and> probe_fault f q = ERROR_ACCESS_DENIED)"
proof (cases "deemed_absent m f q")
  case True
  with assms(1) obtain f' where "fs_create_directory f q = Inr f'" "f1 = f'"
    by (auto simp: ensure_segment_cases split: if_splits sum.splits)
  then show ?thesis using fs_create_directory_present by blast
next
  case False
  with assms(1) have u: "\<not> unexpected_probe_error m (probe_fault f q)" and eq: "f1 = f"
    by (auto simp: ensure_segment_cases split: if_splits)
  from False u eq show ?thesis
    by (auto simp: deemed_absent_def unexpected_probe_error_def split: if_splits)
qed

lemma ensure_segment_again:
  assumes first: "ensure_segment m f q = (Inr u, fa, e)"
    and grown: "dirs fa \<subseteq> dirs g" "files g = files f" "probe_fault g = probe_fault f"
  shows "\<exists>e'. ensure_segment m g q = (Inr (), g, e')"
proof -
  from first have nu: "\<not> unexpected_probe_error m (probe_fault f q)"
    by (auto simp: ensure_segment_cases split: if_splits)
  note fr = ensure_segment_frame[OF first]
  from grown(3) have pf: "probe_fault g q = probe_fault f q" by simp
  show ?thesis
  proof (cases "deemed_absent m g q")
    case False
    with nu pf show ?thesis by (simp add: ensure_segment_cases)
  next
    case dg: True
    have "deemed_absent m f q"
    proof (cases "probe_fault f q = 0")
      case False
      with dg pf show ?thesis by (auto simp: deemed_absent_def split: if_splits)
    next
      case True
      with dg pf have np: "\<not> present g q" by (auto simp: deemed_absent_def split: if_splits)
      have "\<not> present f q"
      proof
        assume "present f q"
        from present_mono[OF _ grown(2) this] fr(4) grown(1) have "present g q" by blast
        with np show False ..
      qed
      with True show ?thesis by (simp add: deemed_absent_def)
    qed
    with first nu obtain f' where c: "fs_create_directory f q = Inr f'" and "fa = f'"
      by (auto simp: ensure_segment_cases split: sum.splits)
    with grown(1) have "fs_create_directory g q = Inr g"
      by (intro fs_create_directory_again[OF c]) simp
    with nu pf dg show ?thesis by (simp add: ensure_segment_cases)
  qed
qed

subsection \<open>The loop\<close>

lemma ensure_loop_frame:
  "ensure_loop m bp segs f = (r, f', ev) \<Longrightarrow>
     probe_fault f' = probe_fault f \<and> create_refused f' = create_refused f \<and>
     files f' = files f \<and> dirs f \<subseteq> dirs f'"
proof (induction segs arbitrary: bp f r f' ev)
  case Nil
  then show ?case by simp
next
  case (Cons seg rest)
  obtain r1 f1 ev1 where s: "ensure_segment m f (path_append bp seg) = (r1, f1, ev1)"
    by (metis prod_cases3)
  note fr = ensure_segment_frame[OF s]
  show ?case
  proof (cases r1)
    case (Inl e)
    with Cons.prems s have "f' = f1" by simp
    with fr show ?thesis by simp
  next
    case (Inr u)
    obtain r2 f2 ev2 where l: "ensure_loop m (path_append bp seg) rest f1 = (r2, f2, ev2)"
      by (metis prod_cases3)
    with Cons.prems s Inr have e: "f' = f2" by simp
    from Cons.IH[OF l] fr e show ?thesis by auto
  qed
qed

lemma ensure_loop_append:
  "ensure_loop m bp (xs @ ys) f =
     (case ensure_loop m bp xs f of
        (Inl e, f1, ev) \<Rightarrow> (Inl e, f1, ev)
      | (Inr u, f1, ev) \<Rightarrow>
          (case ensure_loop m (bp @ xs) ys f1 of (r, f2, ev') \<Rightarrow> (r, f2, ev @ ev')))"
proof (induction xs arbitrary: bp f)
  case Nil
  then show ?case by (simp split: prod.splits)
next
  case (Cons x xs)
  show ?case
    by (simp add: Cons.IH path_append_def split: prod.splits sum.splits)
qed

lemma ensure_segment_events:
  "ensure_segment m f p = (r, f', ev) \<Longrightarrow> ev = [Probe p] \<or> ev = [Probe p, Create p]"
  by (auto simp: ensure_segment_def create_if_absent_def fs_exists_def Let_def
      split: if_splits sum.splits)

lemma ensure_loop_event_paths:
  "ensure_loop m bp segs f = (r, f', ev) \<Longrightarrow> event_path ` set ev \<subseteq> set (build_paths bp segs)"
proof (induction segs arbitrary: bp f r f' ev)
  case Nil
  then show ?case by simp
next
  case (Cons seg rest)
  obtain r1 f1 ev1 where s: "ensure_segment m f (path_append bp seg) = (r1, f1, ev1)"
    by (metis prod_cases3)
  from ensure_segment_events[OF s]
  have e1: "event_path ` set ev1 \<subseteq> {path_append bp seg}" by auto
  show ?case
  proof (cases r1)
    case (Inl e)
    with Cons.prems s have "ev = ev1" by simp
    with e1 show ?thesis by auto
  next
    case (Inr u)
    obtain r2 f2 ev2 where l: "ensure_loop m (path_append bp seg) rest f1 = (r2, f2, ev2)"
      by (metis prod_cases3)
    with Cons.prems s Inr have e: "ev = ev1 @ ev2" by simp
    from Cons.IH[OF l] e1 e show ?thesis by auto
  qed
qed

lemma build_paths_bound:
  "p \<in> set (build_paths bp segs) \<Longrightarrow> length p \<le> length bp + length segs"
proof (induction segs arbitrary: bp)
  case Nil
  then show ?case by simp
next
  case (Cons s ss)
  from Cons.prems have "p = bp @ [s] \<or> p \<in> set (build_paths (bp @ [s]) ss)"
    by (simp add: path_append_def)
  then show ?case
  proof
    assume "p = bp @ [s]"
    then show ?thesis by simp
  next
    assume "p \<in> set (build_paths (bp @ [s]) ss)"
    from Cons.IH[OF this] show ?thesis by simp
  qed
qed

lemma ensure_segment_access_denied:
  "WIN32 m \<Longrightarrow> probe_fault f p = ERROR_ACCESS_DENIED \<Longrightarrow>
     ensure_segment m f p = (Inr (), f, [Probe p])"
  by (simp add: ensure_segment_def fs_exists_def ERROR_ACCESS_DENIED_def)

lemma ensure_loop_first_event:
  "\<exists>r f' ev. ensure_loop m bp (seg # rest) f = (r, f', Probe (bp @ [seg]) # ev)"
proof -
  obtain r1 f1 ev1 where s: "ensure_segment m f (path_append bp seg) = (r1, f1, ev1)"
    by (metis prod_cases3)
  from ensure_segment_events[OF s] obtain t where ev1: "ev1 = Probe (bp @ [seg]) # t"
    by (auto simp: path_append_def)
  obtain r2 f2 ev2 where l: "ensure_loop m (path_append bp seg) rest f1 = (r2, f2, ev2)"
    by (metis prod_cases3)
  show ?thesis
    using s ev1 l by (cases r1) auto
qed

text \<open>The definitions a run on a given file system unfolds.\<close>

lemmas walk_eval =
  EnsurePathExists_def ensure_segment_def create_if_absent_def fs_exists_def
  fs_create_directory_def present_def is_dir_def step_def path_append_def

section \<open>C1: a probe that answers permission denied\<close>

text \<open>
  C1, as the code has it. The branch that takes a permission-denied answer for
  "exists" is compiled on Windows only. There, when the walk has passed the prefix
  \<open>pre\<close> and the probe of the next prefix \<open>pre / seg\<close> answers
  \<open>ERROR_ACCESS_DENIED\<close>, the walk does not throw at that prefix and asks for no
  creation of it: the event after \<open>Probe (pre / seg)\<close> is the probe of the next
  deeper prefix \<open>pre / seg / nxt\<close>, and no \<open>Create (pre / seg)\<close> occurs in the
  whole walk.
\<close>

theorem EnsurePathExists_access_denied_win32:
  assumes win: "WIN32 m"
    and denied: "probe_fault fsys (pre @ [seg]) = ERROR_ACCESS_DENIED"
    and reached: "EnsurePathExists m pre fsys = (Inr (), fsys1, ev1)"
  shows "\<exists>r fsys2 ev2.
           EnsurePathExists m (pre @ seg # nxt # rest) fsys =
             (r, fsys2, ev1 @ Probe (pre @ [seg]) # Probe (pre @ [seg, nxt]) # ev2) \<and>
           Create (pre @ [seg]) \<notin>
             set (ev1 @ Probe (pre @ [seg]) # Probe (pre @ [seg, nxt]) # ev2)"
proof -
  from reached have l1: "ensure_loop m [] pre fsys = (Inr (), fsys1, ev1)"
    by (simp add: EnsurePathExists_def)
  from ensure_loop_frame[OF l1] denied
  have d1: "probe_fault fsys1 (pre @ [seg]) = ERROR_ACCESS_DENIED" by simp
  have s: "ensure_segment m fsys1 (path_append pre seg) = (Inr (), fsys1, [Probe (pre @ [seg])])"
    using ensure_segment_access_denied[OF win d1] by (simp add: path_append_def)
  obtain r fsys2 ev2 where
    l2: "ensure_loop m (pre @ [seg]) (nxt # rest) fsys1 = (r, fsys2, Probe ((pre @ [seg]) @ [nxt]) # ev2)"
    using ensure_loop_first_event by blast
  have whole: "EnsurePathExists m (pre @ seg # nxt # rest) fsys =
      (r, fsys2, ev1 @ Probe (pre @ [seg]) # Probe (pre @ [seg, nxt]) # ev2)"
    unfolding EnsurePathExists_def ensure_loop_append l1
    using s l2 by (simp add: path_append_def)
  have before: "Create (pre @ [seg]) \<notin> set ev1"
  proof
    assume "Create (pre @ [seg]) \<in> set ev1"
    then have "event_path (Create (pre @ [seg])) \<in> event_path ` set ev1" by (rule imageI)
    with ensure_loop_event_paths[OF l1] have "pre @ [seg] \<in> set (build_paths [] pre)" by auto
    from build_paths_bound[OF this] show False by simp
  qed
  have after: "Create (pre @ [seg]) \<notin> set ev2"
  proof
    assume "Create (pre @ [seg]) \<in> set ev2"
    then have "event_path (Create (pre @ [seg])) \<in> event_path ` set (Probe ((pre @ [seg]) @ [nxt]) # ev2)"
      by (intro imageI) simp
    with ensure_loop_event_paths[OF l2]
    have "pre @ [seg] \<in> set (build_paths (pre @ [seg]) (nxt # rest))" by auto
    from build_paths_longer[OF this] show False by simp
  qed
  from whole before after show ?thesis by auto
qed

text \<open>
  C1 as stated (every build) does not hold: in a build without \<open>_WIN32\<close> the only
  error code with a branch is \<open>ENOENT\<close>, so the answer \<open>EACCES\<close> for \<open>/locked\<close>
  ends the walk with the runtime error, and \<open>/locked/sub\<close> is never probed.
\<close>

theorem EnsurePathExists_access_denied_posix_counterexample:
  "EnsurePathExists posix_build [''/'', ''locked'', ''sub''] (locked_fs EACCES) =
     (Inl (RuntimeError ''Couldn't ensure that path exists.''), locked_fs EACCES,
      [Probe [''/''], Probe [''/'', ''locked'']])"
  by (simp add: walk_eval posix_build_def locked_fs_def EACCES_def ENOENT_def)

theorem EnsurePathExists_access_denied_win32_witness:
  "WIN32 windows_build \<and>
   probe_fault (locked_fs ERROR_ACCESS_DENIED) ([''/''] @ [''locked'']) = ERROR_ACCESS_DENIED \<and>
   EnsurePathExists windows_build [''/''] (locked_fs ERROR_ACCESS_DENIED) =
     (Inr (), locked_fs ERROR_ACCESS_DENIED, [Probe [''/'']]) \<and>
   (\<exists>r fsys2 ev2.
      EnsurePathExists windows_build ([''/''] @ ''locked'' # ''sub'' # []) (locked_fs ERROR_ACCESS_DENIED) =
        (r, fsys2, [Probe [''/'']] @ Probe ([''/''] @ [''locked'']) # Probe ([''/''] @ [''locked'', ''sub'']) # ev2) \<and>
      Create ([''/''] @ [''locked'']) \<notin>
        set ([Probe [''/'']] @ Probe ([''/''] @ [''locked'']) # Probe ([''/''] @ [''locked'', ''sub'']) # ev2))"
proof -
  have w: "WIN32 windows_build" by (simp add: windows_build_def)
  have d: "probe_fault (locked_fs ERROR_ACCESS_DENIED) ([''/''] @ [''locked'']) = ERROR_ACCESS_DENIED"
    by (simp add: locked_fs_def)
  have r: "EnsurePathExists windows_build [''/''] (locked_fs ERROR_ACCESS_DENIED) =
     (Inr (), locked_fs ERROR_ACCESS_DENIED, [Probe [''/'']])"
    by (simp add: walk_eval windows_build_def locked_fs_def)
  from w d r EnsurePathExists_access_denied_win32[OF w d r, of "''sub''" "[]"]
  show ?thesis by blast
qed


section \<open>C3: when EnsurePathExists raises\<close>

lemma ensure_segment_RuntimeError:
  "fst (ensure_segment m f q) = Inl (RuntimeError s) \<longleftrightarrow>
     unexpected_probe_error m (probe_fault f q) \<and> s = ''Couldn't ensure that path exists.''"
  by (auto simp: ensure_segment_cases split: sum.splits dest: fs_create_directory_Inl)

lemma ensure_segment_create_fails:
  assumes "deemed_absent m f q" "fs_create_directory f q = Inl e"
  shows "ensure_segment m f q = (Inl e, f, [Probe q, Create q])"
proof -
  from assms(1) have "\<not> unexpected_probe_error m (probe_fault f q)"
    by (auto simp: deemed_absent_def unexpected_probe_error_def split: if_splits)
  with assms show ?thesis by (simp add: ensure_segment_cases)
qed

lemma ensure_segment_error_cases:
  assumes "ensure_segment m f q = (Inl e, f', ev)"
  shows "e = RuntimeError ''Couldn't ensure that path exists.'' \<or>
         (deemed_absent m f q \<and> fs_create_directory f q = Inl e)"
  using assms by (auto simp: ensure_segment_cases split: if_splits sum.splits)

lemma ensure_loop_snoc:
  "ensure_loop m [] (xs @ [x]) f =
     (case ensure_loop m [] xs f of
        (Inl e, f1, ev) \<Rightarrow> (Inl e, f1, ev)
      | (Inr u, f1, ev) \<Rightarrow>
          (case ensure_segment m f1 (xs @ [x]) of (r, f2, ev') \<Rightarrow> (r, f2, ev @ ev')))"
  by (simp add: ensure_loop_append path_append_def split: prod.splits sum.splits)

lemma ensure_loop_RuntimeError_iff:
  "fst (ensure_loop m [] p f) = Inl (RuntimeError ''Couldn't ensure that path exists.'') \<longleftrightarrow>
     (\<exists>k<length p. fst (ensure_loop m [] (take k p) f) = Inr () \<and>
        unexpected_probe_error m (probe_fault f (take (Suc k) p)))"
  (is "?L p \<longleftrightarrow> ?R p")
proof (induction p rule: rev_induct)
  case Nil
  show ?case by simp
next
  case (snoc x xs)
  obtain r1 f1 ev1 where l: "ensure_loop m [] xs f = (r1, f1, ev1)" by (metis prod_cases3)
  have small: "\<And>k. k < length xs \<Longrightarrow>
      take k (xs @ [x]) = take k xs \<and> take (Suc k) (xs @ [x]) = take (Suc k) xs"
    by simp
  have split: "?R (xs @ [x]) \<longleftrightarrow> ?R xs \<or>
      (fst (ensure_loop m [] xs f) = Inr () \<and> unexpected_probe_error m (probe_fault f (xs @ [x])))"
    (is "_ \<longleftrightarrow> _ \<or> ?Last")
  proof
    assume "?R (xs @ [x])"
    then obtain k where k: "k < length (xs @ [x])"
      "fst (ensure_loop m [] (take k (xs @ [x])) f) = Inr ()"
      "unexpected_probe_error m (probe_fault f (take (Suc k) (xs @ [x])))" by blast
    show "?R xs \<or> ?Last"
    proof (cases "k < length xs")
      case True
      with k small[OF True] show ?thesis by auto
    next
      case False
      with k have "k = length xs" by simp
      with k show ?thesis by simp
    qed
  next
    assume "?R xs \<or> ?Last"
    then show "?R (xs @ [x])"
    proof
      assume "?R xs"
      then obtain k where k: "k < length xs" "fst (ensure_loop m [] (take k xs) f) = Inr ()"
        "unexpected_probe_error m (probe_fault f (take (Suc k) xs))" by blast
      with small[OF k(1)] show ?thesis by (intro exI[of _ k]) simp
    next
      assume ?Last
      then show ?thesis by (intro exI[of _ "length xs"]) simp
    qed
  qed
  show ?case
  proof (cases r1)
    case (Inl e)
    with l have "?L (xs @ [x]) \<longleftrightarrow> ?L xs" by (simp add: ensure_loop_snoc)
    moreover from l Inl have "\<not> ?Last" by simp
    ultimately show ?thesis using snoc.IH split by blast
  next
    case (Inr u)
    from ensure_loop_frame[OF l] have pf: "probe_fault f1 = probe_fault f" by simp
    from l Inr have nl: "\<not> ?L xs" by simp
    from l Inr have "?L (xs @ [x]) \<longleftrightarrow>
        fst (ensure_segment m f1 (xs @ [x])) = Inl (RuntimeError ''Couldn't ensure that path exists.'')"
      by (simp add: ensure_loop_snoc split: prod.splits)
    also have "\<dots> \<longleftrightarrow> unexpected_probe_error m (probe_fault f (xs @ [x]))"
      by (simp add: ensure_segment_RuntimeError pf)
    also have "\<dots> \<longleftrightarrow> ?Last" using l Inr by simp
    finally show ?thesis using snoc.IH split nl by blast
  qed
qed


lemma ensure_loop_create_fails:
  assumes k: "k < length p"
    and reached: "ensure_loop m [] (take k p) f = (Inr (), f1, ev1)"
    and absent: "deemed_absent m f1 (take (Suc k) p)"
    and fails: "fs_create_directory f1 (take (Suc k) p) = Inl e"
  shows "ensure_loop m [] p f =
     (Inl e, f1, ev1 @ [Probe (take (Suc k) p), Create (take (Suc k) p)])"
proof -
  let ?q = "take (Suc k) p"
  have p: "p = take k p @ (p ! k) # drop (Suc k) p" using k by (simp add: id_take_nth_drop)
  have q: "?q = take k p @ [p ! k]" using k by (simp add: take_Suc_conv_app_nth)
  from ensure_segment_create_fails[OF absent fails]
  have s: "ensure_segment m f1 ?q = (Inl e, f1, [Probe ?q, Create ?q])" .
  have "ensure_loop m [] (take k p @ (p ! k) # drop (Suc k) p) f =
     (Inl e, f1, ev1 @ [Probe ?q, Create ?q])"
    unfolding ensure_loop_append reached using s q by (simp add: path_append_def)
  with p show ?thesis by simp
qed

lemma ensure_loop_error_cases:
  "fst (ensure_loop m [] p f) = Inl e \<Longrightarrow>
     e = RuntimeError ''Couldn't ensure that path exists.'' \<or>
     (\<exists>k<length p. \<exists>f1 ev1. ensure_loop m [] (take k p) f = (Inr (), f1, ev1) \<and>
        deemed_absent m f1 (take (Suc k) p) \<and> fs_create_directory f1 (take (Suc k) p) = Inl e)"
proof (induction p rule: rev_induct)
  case Nil
  then show ?case by simp
next
  case (snoc x xs)
  obtain r1 f1 ev1 where l: "ensure_loop m [] xs f = (r1, f1, ev1)" by (metis prod_cases3)
  show ?case
  proof (cases r1)
    case (Inl e')
    with l snoc.prems have "fst (ensure_loop m [] xs f) = Inl e"
      by (simp add: ensure_loop_snoc)
    from snoc.IH[OF this] show ?thesis
    proof
      assume "e = RuntimeError ''Couldn't ensure that path exists.''"
      then show ?thesis ..
    next
      assume "\<exists>k<length xs. \<exists>f1 ev1. ensure_loop m [] (take k xs) f = (Inr (), f1, ev1) \<and>
        deemed_absent m f1 (take (Suc k) xs) \<and> fs_create_directory f1 (take (Suc k) xs) = Inl e"
      then obtain k g ev where k: "k < length xs"
        and r: "ensure_loop m [] (take k xs) f = (Inr (), g, ev)"
        and d: "deemed_absent m g (take (Suc k) xs)"
        and c: "fs_create_directory g (take (Suc k) xs) = Inl e" by blast
      from k have "take k (xs @ [x]) = take k xs" "take (Suc k) (xs @ [x]) = take (Suc k) xs"
        by simp_all
      with k r d c have "k < length (xs @ [x]) \<and>
        (\<exists>f1 ev1. ensure_loop m [] (take k (xs @ [x])) f = (Inr (), f1, ev1) \<and>
          deemed_absent m f1 (take (Suc k) (xs @ [x])) \<and>
          fs_create_directory f1 (take (Suc k) (xs @ [x])) = Inl e)" by simp
      then show ?thesis by blast
    qed
  next
    case (Inr u)
    obtain r2 f2 ev2 where s: "ensure_segment m f1 (xs @ [x]) = (r2, f2, ev2)"
      by (metis prod_cases3)
    with l Inr snoc.prems have "r2 = Inl e" by (simp add: ensure_loop_snoc)
    with s have "ensure_segment m f1 (xs @ [x]) = (Inl e, f2, ev2)" by simp
    from ensure_segment_error_cases[OF this] show ?thesis
    proof
      assume "e = RuntimeError ''Couldn't ensure that path exists.''"
      then show ?thesis ..
    next
      assume a: "deemed_absent m f1 (xs @ [x]) \<and> fs_create_directory f1 (xs @ [x]) = Inl e"
      from l Inr have "ensure_loop m [] (take (length xs) (xs @ [x])) f = (Inr (), f1, ev1)"
        by simp
      with a have "length xs < length (xs @ [x]) \<and>
        (\<exists>g ev. ensure_loop m [] (take (length xs) (xs @ [x])) f = (Inr (), g, ev) \<and>
          deemed_absent m g (take (Suc (length xs)) (xs @ [x])) \<and>
          fs_create_directory g (take (Suc (length xs)) (xs @ [x])) = Inl e)" by simp
      then show ?thesis by blast
    qed
  qed
qed

text \<open>
  C3, as the code has it. \<open>EnsurePathExists\<close> ends with its runtime error exactly
  when the walk reaches a prefix (the walk over the \<open>k\<close> elements before it returns)
  whose existence probe answers an unexpected error code. An error of the creation call
  is not ignored: line 321 calls the overload of \<open>fs::create_directory\<close> that throws,
  so whenever the walk reaches a prefix that is deemed absent and the creation call
  fails there, for whatever reason, the walk ends at that prefix with the error of that
  call. And these are the only two ways in which \<open>EnsurePathExists\<close> throws.
\<close>

theorem EnsurePathExists_raises:
  "(fst (EnsurePathExists m p fsys) = Inl (RuntimeError ''Couldn't ensure that path exists.'') \<longleftrightarrow>
      (\<exists>k<length p. fst (EnsurePathExists m (take k p) fsys) = Inr () \<and>
         unexpected_probe_error m (probe_fault fsys (take (Suc k) p)))) \<and>
   (\<forall>k f1 ev1 e. k < length p \<and> EnsurePathExists m (take k p) fsys = (Inr (), f1, ev1) \<and>
        deemed_absent m f1 (take (Suc k) p) \<and>
        fs_create_directory f1 (take (Suc k) p) = Inl e \<longrightarrow>
        EnsurePathExists m p fsys =
          (Inl e, f1, ev1 @ [Probe (take (Suc k) p), Create (take (Suc k) p)])) \<and>
   (\<forall>e. fst (EnsurePathExists m p fsys) = Inl e \<longrightarrow>
        e = RuntimeError ''Couldn't ensure that path exists.'' \<or>
        (\<exists>k<length p. \<exists>f1 ev1. EnsurePathExists m (take k p) fsys = (Inr (), f1, ev1) \<and>
           deemed_absent m f1 (take (Suc k) p) \<and>
           fs_create_directory f1 (take (Suc k) p) = Inl e))"
proof (intro conjI allI impI)
  show "fst (EnsurePathExists m p fsys) = Inl (RuntimeError ''Couldn't ensure that path exists.'') \<longleftrightarrow>
      (\<exists>k<length p. fst (EnsurePathExists m (take k p) fsys) = Inr () \<and>
         unexpected_probe_error m (probe_fault fsys (take (Suc k) p)))"
    unfolding EnsurePathExists_def by (rule ensure_loop_RuntimeError_iff)
next
  fix k f1 ev1 e
  assume "k < length p \<and> EnsurePathExists m (take k p) fsys = (Inr (), f1, ev1) \<and>
        deemed_absent m f1 (take (Suc k) p) \<and> fs_create_directory f1 (take (Suc k) p) = Inl e"
  then show "EnsurePathExists m p fsys =
          (Inl e, f1, ev1 @ [Probe (take (Suc k) p), Create (take (Suc k) p)])"
    unfolding EnsurePathExists_def by (intro ensure_loop_create_fails) simp_all
next
  fix e
  assume "fst (EnsurePathExists m p fsys) = Inl e"
  then show "e = RuntimeError ''Couldn't ensure that path exists.'' \<or>
        (\<exists>k<length p. \<exists>f1 ev1. EnsurePathExists m (take k p) fsys = (Inr (), f1, ev1) \<and>
           deemed_absent m f1 (take (Suc k) p) \<and>
           fs_create_directory f1 (take (Suc k) p) = Inl e)"
    unfolding EnsurePathExists_def by (rule ensure_loop_error_cases)
qed

text \<open>
  C3 as stated does not hold: no probe answers an error in \<open>readonly_fs\<close>, the
  creation of \<open>/ro\<close> fails, and the walk does not proceed to \<open>/ro/sub\<close>: the
  file system error of the creation call leaves \<open>EnsurePathExists\<close>.
\<close>

theorem EnsurePathExists_create_error_counterexample:
  "EnsurePathExists posix_build [''/'', ''ro'', ''sub''] readonly_fs =
     (Inl (FilesystemError [''/'', ''ro'']), readonly_fs,
      [Probe [''/''], Probe [''/'', ''ro''], Create [''/'', ''ro'']]) \<and>
   (\<forall>q. probe_fault readonly_fs q = 0)"
  by (simp add: walk_eval posix_build_def readonly_fs_def)

theorem EnsurePathExists_raises_witness:
  "fst (EnsurePathExists posix_build [''/'', ''locked'', ''sub''] (locked_fs EACCES)) =
      Inl (RuntimeError ''Couldn't ensure that path exists.'') \<and>
   EnsurePathExists windows_build [''/'', ''locked'', ''sub''] (locked_fs ERROR_ACCESS_DENIED) =
     (Inl (FilesystemError [''/'', ''locked'', ''sub'']), locked_fs ERROR_ACCESS_DENIED,
      [Probe [''/''], Probe [''/'', ''locked''],
       Probe [''/'', ''locked'', ''sub''], Create [''/'', ''locked'', ''sub'']]) \<and>
   \<not> create_refused (locked_fs ERROR_ACCESS_DENIED) [''/'', ''locked'', ''sub'']"
proof -
  let ?p = "[''/'', ''locked'', ''sub'']"
  have r1: "fst (EnsurePathExists posix_build (take 1 ?p) (locked_fs EACCES)) = Inr ()"
    by (simp add: walk_eval posix_build_def locked_fs_def)
  have u: "unexpected_probe_error posix_build (probe_fault (locked_fs EACCES) (take (Suc 1) ?p))"
    by (simp add: unexpected_probe_error_def posix_build_def locked_fs_def EACCES_def ENOENT_def)
  have "\<exists>k<length ?p.
      fst (EnsurePathExists posix_build (take k ?p) (locked_fs EACCES)) = Inr () \<and>
      unexpected_probe_error posix_build (probe_fault (locked_fs EACCES) (take (Suc k) ?p))"
    using r1 u by (intro exI[of _ 1]) simp
  with EnsurePathExists_raises[of posix_build ?p "locked_fs EACCES"]
  have A: "fst (EnsurePathExists posix_build ?p (locked_fs EACCES)) =
      Inl (RuntimeError ''Couldn't ensure that path exists.'')" by blast
  let ?w = "locked_fs ERROR_ACCESS_DENIED"
  have r2: "EnsurePathExists windows_build (take 2 ?p) ?w =
      (Inr (), ?w, [Probe [''/''], Probe [''/'', ''locked'']])"
    by (simp add: walk_eval windows_build_def locked_fs_def ERROR_ACCESS_DENIED_def)
  have d: "deemed_absent windows_build ?w (take (Suc 2) ?p)"
    by (simp add: deemed_absent_def present_def is_dir_def step_def locked_fs_def)
  have c: "fs_create_directory ?w (take (Suc 2) ?p) = Inl (FilesystemError ?p)"
    by (simp add: fs_create_directory_def is_dir_def step_def locked_fs_def)
  have h: "2 < length ?p \<and>
      EnsurePathExists windows_build (take 2 ?p) ?w =
        (Inr (), ?w, [Probe [''/''], Probe [''/'', ''locked'']]) \<and>
      deemed_absent windows_build ?w (take (Suc 2) ?p) \<and>
      fs_create_directory ?w (take (Suc 2) ?p) = Inl (FilesystemError ?p)"
    using r2 d c by simp
  with EnsurePathExists_raises[of windows_build ?p ?w]
  have "EnsurePathExists windows_build ?p ?w =
      (Inl (FilesystemError ?p), ?w,
       [Probe [''/''], Probe [''/'', ''locked'']] @
       [Probe (take (Suc 2) ?p), Create (take (Suc 2) ?p)])" by blast
  then have B: "EnsurePathExists windows_build ?p ?w =
     (Inl (FilesystemError ?p), ?w,
      [Probe [''/''], Probe [''/'', ''locked''], Probe ?p, Create ?p])" by simp
  have C: "\<not> create_refused ?w ?p" by (simp add: locked_fs_def)
  from A B C show ?thesis by simp
qed

section \<open>C9: the probes and creations of one walk\<close>








lemma ensure_loop_present:
  "ensure_loop m bp segs f = (Inr u, f', ev) \<Longrightarrow> q \<in> set (build_paths bp segs) \<Longrightarrow>
     present f' q \<or> (WIN32 m \<and> probe_fault f q = ERROR_ACCESS_DENIED)"
proof (induction segs arbitrary: bp f f' ev)
  case Nil
  then show ?case by simp
next
  case (Cons seg rest)
  let ?q = "path_append bp seg"
  obtain r1 f1 e1 where s: "ensure_segment m f ?q = (r1, f1, e1)" by (metis prod_cases3)
  obtain r2 f2 e2 where l: "ensure_loop m ?q rest f1 = (r2, f2, e2)" by (metis prod_cases3)
  from Cons.prems(1) s obtain v where r1: "r1 = Inr v" by (cases r1) auto
  with Cons.prems(1) s l have eq: "r2 = Inr u" "f' = f2" by simp_all
  note fr1 = ensure_segment_frame[OF s] and fr2 = ensure_loop_frame[OF l]
  have ne: "?q \<noteq> []" by (simp add: path_append_def)
  from Cons.prems(2) have "q = ?q \<or> q \<in> set (build_paths ?q rest)" by simp
  then show ?case
  proof
    assume qq: "q = ?q"
    from ensure_segment_present[OF s[unfolded r1] ne]
    show ?thesis
    proof
      assume "present f1 ?q"
      from present_mono[OF _ _ this, of f2] fr2 have "present f2 ?q" by simp
      with qq eq show ?thesis by simp
    next
      assume "WIN32 m \<and> probe_fault f ?q = ERROR_ACCESS_DENIED"
      with qq show ?thesis by simp
    qed
  next
    assume "q \<in> set (build_paths ?q rest)"
    from Cons.IH[OF l[unfolded eq(1)] this] fr1 eq show ?thesis by simp
  qed
qed



text \<open>
  Three runs on spellings and files: a path that ends with a separator (the last
  prefix is found present), a path through \<open>..\<close> (the prefix \<open>/a/..\<close> is the root,
  and \<open>/a/../c\<close> is \<open>/c\<close>), and a path below a regular file (the creation throws).
\<close>

lemma EnsurePathExists_trailing_separator:
  "EnsurePathExists posix_build [''/'', ''a'', ''b'', []] (plain_fs {[''/'']}) =
     (Inr (), plain_fs {[''/'', ''a'', ''b''], [''/'', ''a''], [''/'']},
      [Probe [''/''], Probe [''/'', ''a''], Create [''/'', ''a''],
       Probe [''/'', ''a'', ''b''], Create [''/'', ''a'', ''b''],
       Probe [''/'', ''a'', ''b'', []]])"
  by (simp add: walk_eval posix_build_def plain_fs_def)

lemma EnsurePathExists_dot_dot:
  "EnsurePathExists posix_build [''/'', ''a'', ''..'', ''c''] (plain_fs {[''/'']}) =
     (Inr (), plain_fs {[''/'', ''c''], [''/'', ''a''], [''/'']},
      [Probe [''/''], Probe [''/'', ''a''], Create [''/'', ''a''],
       Probe [''/'', ''a'', ''..''],
       Probe [''/'', ''a'', ''..'', ''c''], Create [''/'', ''a'', ''..'', ''c'']])"
  by (simp add: walk_eval posix_build_def plain_fs_def)

lemma EnsurePathExists_below_regular_file:
  "EnsurePathExists posix_build [''/'', ''f'', ''x'']
       \<lparr>dirs = {[''/'']}, files = {[''/'', ''f'']},
        probe_fault = (\<lambda>p. 0), create_refused = (\<lambda>p. False)\<rparr> =
     (Inl (FilesystemError [''/'', ''f'', ''x'']),
      \<lparr>dirs = {[''/'']}, files = {[''/'', ''f'']},
        probe_fault = (\<lambda>p. 0), create_refused = (\<lambda>p. False)\<rparr>,
      [Probe [''/''], Probe [''/'', ''f''], Probe [''/'', ''f'', ''x''],
       Create [''/'', ''f'', ''x'']])"
  by (simp add: walk_eval posix_build_def)

section \<open>C8: a second walk\<close>

lemma ensure_loop_idempotent:
  "ensure_loop m bp segs f = (r, f1, ev1) \<Longrightarrow> \<exists>ev2. ensure_loop m bp segs f1 = (r, f1, ev2)"
proof (induction segs arbitrary: bp f r f1 ev1)
  case Nil
  then show ?case by simp
next
  case (Cons seg rest)
  let ?q = "path_append bp seg"
  obtain r1 fa e1 where s: "ensure_segment m f ?q = (r1, fa, e1)"
    by (metis prod_cases3)
  show ?case
  proof (cases r1)
    case (Inl e)
    with s Cons.prems have eq: "r = Inl e" "f1 = fa" by simp_all
    from s Inl have "fa = f" by (auto dest: ensure_segment_throw_unchanged)
    with eq s Inl show ?thesis by simp
  next
    case (Inr u)
    obtain r2 f2 e2 where l: "ensure_loop m ?q rest fa = (r2, f2, e2)"
      by (metis prod_cases3)
    with Cons.prems s Inr have eq: "r = r2" "f1 = f2" by simp_all
    from ensure_loop_frame[OF l] ensure_segment_frame[OF s]
    have "dirs fa \<subseteq> dirs f2" "files f2 = files f" "probe_fault f2 = probe_fault f"
      by simp_all
    from ensure_segment_again[OF s[unfolded Inr] this]
    obtain e' where s2: "ensure_segment m f2 ?q = (Inr (), f2, e')" by blast
    from Cons.IH[OF l] obtain e2' where "ensure_loop m ?q rest f2 = (r2, f2, e2')" by blast
    with s2 eq show ?thesis by simp
  qed
qed

text \<open>
  C8. Whatever the first call of \<open>EnsurePathExists\<close> on a path does (return or
  throw), a second call on the same path, started in the file system the first one
  left, ends the same way and leaves that file system as it is.
\<close>

theorem EnsurePathExists_idempotent:
  "EnsurePathExists m p fsys = (r, fsys1, ev1) \<Longrightarrow>
     \<exists>ev2. EnsurePathExists m p fsys1 = (r, fsys1, ev2)"
  unfolding EnsurePathExists_def by (rule ensure_loop_idempotent)

theorem EnsurePathExists_idempotent_witness:
  "EnsurePathExists posix_build [''/'', ''a'', ''b''] (plain_fs {[''/'']}) =
     (Inr (), plain_fs {[''/'', ''a'', ''b''], [''/'', ''a''], [''/'']},
      [Probe [''/''], Probe [''/'', ''a''], Create [''/'', ''a''],
       Probe [''/'', ''a'', ''b''], Create [''/'', ''a'', ''b'']]) \<and>
   (\<exists>ev2. EnsurePathExists posix_build [''/'', ''a'', ''b'']
      (plain_fs {[''/'', ''a'', ''b''], [''/'', ''a''], [''/'']}) =
     (Inr (), plain_fs {[''/'', ''a'', ''b''], [''/'', ''a''], [''/'']}, ev2))"
proof -
  have run: "EnsurePathExists posix_build [''/'', ''a'', ''b''] (plain_fs {[''/'']}) =
     (Inr (), plain_fs {[''/'', ''a'', ''b''], [''/'', ''a''], [''/'']},
      [Probe [''/''], Probe [''/'', ''a''], Create [''/'', ''a''],
       Probe [''/'', ''a'', ''b''], Create [''/'', ''a'', ''b'']])"
    by (simp add: walk_eval posix_build_def plain_fs_def)
  from EnsurePathExists_idempotent[OF run] run show ?thesis by blast
qed

section \<open>C2: what the resolvers return\<close>

lemma EnsurePathExists_present:
  assumes "EnsurePathExists m p f = (Inr u, f', ev)" "p \<noteq> []"
  shows "present f' p \<or> (WIN32 m \<and> probe_fault f' p = ERROR_ACCESS_DENIED)"
proof -
  from assms(1) have l: "ensure_loop m [] p f = (Inr u, f', ev)" by (simp add: EnsurePathExists_def)
  have "p \<in> set (prefixes p)" by simp
  with assms(2) have "p \<in> set (tl (prefixes p))" by (subst (asm) prefixes_hd_tl) auto
  then have "p \<in> set (build_paths [] p)" by (simp add: build_paths_root)
  from ensure_loop_present[OF l this] ensure_loop_frame[OF l] show ?thesis by simp
qed

lemma ensured_under_base_present:
  assumes "ensured_under_base m sub st env fsys = (Inr p, st', fsys', ev)" "sub \<noteq> []"
  shows "present fsys' p \<or> (WIN32 m \<and> probe_fault fsys' p = ERROR_ACCESS_DENIED)"
proof -
  obtain r0 st0 f0 e0 where b: "GetTeknoParrotBaseDirectory m st env fsys = (r0, st0, f0, e0)"
    by (metis prod_cases4)
  from assms(1) b obtain base where r0: "r0 = Inr base" 
    by (cases r0) (auto simp: ensured_under_base_def)
  obtain r1 f1 e1 where e: "EnsurePathExists m (path_join base sub) f0 = (r1, f1, e1)"
    by (metis prod_cases3)
  from assms(1) b r0 e obtain u where r1: "r1 = Inr u"
    by (cases r1) (auto simp: ensured_under_base_def)
  from assms(1) b r0 e r1 have eq: "p = path_join base sub" "fsys' = f1"
    by (auto simp: ensured_under_base_def)
  from assms(2) have "path_join base sub \<noteq> []" by (simp add: path_join_def)
  from EnsurePathExists_present[OF e[unfolded r1] this] eq show ?thesis by simp
qed

text \<open>
  C2, as the code has it. \<open>GetRoamingDataPath\<close>, \<open>GetPersonalDataPath\<close> and
  \<open>GetCachePath\<close> return only after \<open>EnsurePathExists\<close> has walked the path they
  return: when one of them returns a path, that path is present in the file system at
  that moment (\<open>fs::exists\<close> finds it), or (in a Windows build only) its existence
  probe answers \<open>ERROR_ACCESS_DENIED\<close> and the walk has taken it for present.
\<close>

theorem data_resolvers_return_ensured_path:
  "(GetRoamingDataPath m st env fsys = Some (Inr p, st', fsys', ev) \<longrightarrow>
      present fsys' p \<or> (WIN32 m \<and> probe_fault fsys' p = ERROR_ACCESS_DENIED)) \<and>
   (GetPersonalDataPath m st env fsys = Some (Inr p, st', fsys', ev) \<longrightarrow>
      present fsys' p \<or> (WIN32 m \<and> probe_fault fsys' p = ERROR_ACCESS_DENIED)) \<and>
   (GetCachePath m st env fsys = Some (Inr p, st', fsys', ev) \<longrightarrow>
      present fsys' p \<or> (WIN32 m \<and> probe_fault fsys' p = ERROR_ACCESS_DENIED))"
proof (intro conjI impI)
  assume "GetRoamingDataPath m st env fsys = Some (Inr p, st', fsys', ev)"
  then have "ensured_under_base m [''AppData'', ''Roaming''] st env fsys = (Inr p, st', fsys', ev)"
    by (simp add: GetRoamingDataPath_def split: build_section.splits)
  from ensured_under_base_present[OF this]
  show "present fsys' p \<or> (WIN32 m \<and> probe_fault fsys' p = ERROR_ACCESS_DENIED)" by simp
next
  assume "GetPersonalDataPath m st env fsys = Some (Inr p, st', fsys', ev)"
  then have "\<exists>sub. sub \<noteq> [] \<and> ensured_under_base m sub st env fsys = (Inr p, st', fsys', ev)"
    by (auto simp: GetPersonalDataPath_def split: build_section.splits)
  then show "present fsys' p \<or> (WIN32 m \<and> probe_fault fsys' p = ERROR_ACCESS_DENIED)"
    using ensured_under_base_present by blast
next
  assume "GetCachePath m st env fsys = Some (Inr p, st', fsys', ev)"
  then have "\<exists>sub. sub \<noteq> [] \<and> ensured_under_base m sub st env fsys = (Inr p, st', fsys', ev)"
    by (auto simp: GetCachePath_def split: build_section.splits)
  then show "present fsys' p \<or> (WIN32 m \<and> probe_fault fsys' p = ERROR_ACCESS_DENIED)"
    using ensured_under_base_present by blast
qed

text \<open>
  C2 as stated does not hold for \<open>GetAppResourcesPath\<close>, which ensures nothing in
  any build. In the Android build it returns the base directory, whose creation is
  best effort (the error code of \<open>fs::create_directories\<close> is dropped): where the
  directory of the executable is read-only, it returns a path that is not there.
\<close>

theorem GetAppResourcesPath_android_counterexample:
  "GetAppResourcesPath android_build initial_statics installed_env readonly_install_fs =
     Some (Inr [''/'', ''opt'', ''app'', ''TeknoParrot''],
           initial_statics\<lparr>teknoParrotPath := [''/'', ''opt'', ''app'', ''TeknoParrot''],
                            initialized := True\<rparr>,
           readonly_install_fs,
           [Probe [''/'', ''opt'', ''app'', ''TeknoParrot''],
            CreateAll [''/'', ''opt'', ''app'', ''TeknoParrot'']]) \<and>
   \<not> present readonly_install_fs [''/'', ''opt'', ''app'', ''TeknoParrot'']"
  by (simp add: GetAppResourcesPath_def section_of_def GetTeknoParrotBaseDirectory_def
      GetExecutableDirectory_def fs_exists_def present_def is_dir_def step_def
      fs_create_directories_def fs_create_directory_def path_join_def parent_path_def
      android_build_def initial_statics_def installed_env_def readonly_install_fs_def Let_def)

theorem data_resolvers_return_ensured_path_witness:
  "\<exists>st' fsys' ev.
     GetPersonalDataPath posix_build initial_statics installed_env
         (plain_fs {[''/'', ''opt'', ''app''], [''/'', ''opt''], [''/'']}) =
       Some (Inr [''/'', ''opt'', ''app'', ''TeknoParrot'', ''Documents''], st', fsys', ev) \<and>
     present fsys' [''/'', ''opt'', ''app'', ''TeknoParrot'', ''Documents'']"
proof -
  let ?tp = "[''/'', ''opt'', ''app'', ''TeknoParrot'']"
  let ?doc = "[''/'', ''opt'', ''app'', ''TeknoParrot'', ''Documents'']"
  let ?st = "initial_statics\<lparr>teknoParrotPath := ?tp, initialized := True\<rparr>"
  let ?fs = "plain_fs {?doc, ?tp, [''/'', ''opt'', ''app''], [''/'', ''opt''], [''/'']}"
  let ?ev = "[Probe ?tp, CreateAll ?tp, Probe [''/''], Probe [''/'', ''opt''],
              Probe [''/'', ''opt'', ''app''], Probe ?tp, Probe ?doc, Create ?doc]"
  have run: "GetPersonalDataPath posix_build initial_statics installed_env
         (plain_fs {[''/'', ''opt'', ''app''], [''/'', ''opt''], [''/'']}) =
       Some (Inr ?doc, ?st, ?fs, ?ev)"
    by (simp add: GetPersonalDataPath_def section_of_def ensured_under_base_def
        GetTeknoParrotBaseDirectory_def GetExecutableDirectory_def walk_eval
        fs_create_directories_def path_join_def parent_path_def
        posix_build_def initial_statics_def installed_env_def plain_fs_def Let_def)
  have nw: "\<not> WIN32 posix_build" by (simp add: posix_build_def)
  from data_resolvers_return_ensured_path[of posix_build initial_statics installed_env
      "plain_fs {[''/'', ''opt'', ''app''], [''/'', ''opt''], [''/'']}" ?doc ?st ?fs ?ev] run nw
  have "present ?fs ?doc" by blast
  with run show ?thesis by blast
qed

section \<open>C10: the setters of the Android section\<close>

lemma injected_files: "injected (\<lambda>s. s\<lparr>s_filesDirPath := x\<rparr>)"
  by (simp add: injected_def)

lemma injected_cache: "injected (\<lambda>s. s\<lparr>s_cacheDirPath := x\<rparr>)"
  by (simp add: injected_def)

lemma base_ignores_injected:
  assumes "injected g"
  shows "GetTeknoParrotBaseDirectory m (g st) env fsys =
     (case GetTeknoParrotBaseDirectory m st env fsys of
        (r, st', fsys', ev) \<Rightarrow> (r, g st', fsys', ev))"
  using assms
  by (auto simp: GetTeknoParrotBaseDirectory_def injected_def Let_def split: sum.splits prod.splits)

lemma ensured_ignores_injected:
  assumes "injected g"
  shows "ensured_under_base m sub (g st) env fsys =
     (case ensured_under_base m sub st env fsys of
        (r, st', fsys', ev) \<Rightarrow> (r, g st', fsys', ev))"
  by (simp add: ensured_under_base_def base_ignores_injected[OF assms]
      split: sum.splits prod.splits)

lemma flatpak_ignores_injected:
  "flatpak_or_executable m (g st) env fsys =
     (case flatpak_or_executable m st env fsys of
        (r, st', fsys', ev) \<Rightarrow> (r, g st', fsys', ev))"
  by (cases "fs_exists fsys [''/'', ''app'', ''share'']")
     (simp add: flatpak_or_executable_def Let_def)

lemma linux_ignores_injected:
  "GetAppResourcesPath_linux m (g st) env fsys =
     (case GetAppResourcesPath_linux m st env fsys of
        (r, st', fsys', ev) \<Rightarrow> (r, g st', fsys', ev))"
proof (cases "getenv env ''APPIMAGE'' \<noteq> None")
  case False
  then show ?thesis
    by (simp add: GetAppResourcesPath_linux_def flatpak_ignores_injected)
next
  case True
  show ?thesis
  proof (cases "getenv env ''APPDIR''")
    case None
    with True show ?thesis by (simp add: GetAppResourcesPath_linux_def)
  next
    case (Some d)
    obtain ex ec where p: "fs_exists fsys (path_join d [''usr'', ''share'']) = (ex, ec)"
      by (cases "fs_exists fsys (path_join d [''usr'', ''share''])")
    obtain r st' f' ev where f: "flatpak_or_executable m st env fsys = (r, st', f', ev)"
      by (metis prod_cases4)
    from True Some p f show ?thesis
      by (simp add: GetAppResourcesPath_linux_def flatpak_ignores_injected Let_def)
  qed
qed

lemma getters_ignore_injected:
  assumes "injected g"
  shows "GetRoamingDataPath m (g st) env fsys = with_statics g (GetRoamingDataPath m st env fsys)"
    and "GetPersonalDataPath m (g st) env fsys = with_statics g (GetPersonalDataPath m st env fsys)"
    and "GetCachePath m (g st) env fsys = with_statics g (GetCachePath m st env fsys)"
    and "GetAppResourcesPath m (g st) env fsys = with_statics g (GetAppResourcesPath m st env fsys)"
proof -
  note e = ensured_ignores_injected[OF assms] and b = base_ignores_injected[OF assms]
  show "GetRoamingDataPath m (g st) env fsys = with_statics g (GetRoamingDataPath m st env fsys)"
    by (simp add: GetRoamingDataPath_def with_statics_def e split: build_section.splits prod.splits)
  show "GetPersonalDataPath m (g st) env fsys = with_statics g (GetPersonalDataPath m st env fsys)"
    by (simp add: GetPersonalDataPath_def with_statics_def e split: build_section.splits prod.splits)
  show "GetCachePath m (g st) env fsys = with_statics g (GetCachePath m st env fsys)"
    by (simp add: GetCachePath_def with_statics_def e split: build_section.splits prod.splits)
  show "GetAppResourcesPath m (g st) env fsys = with_statics g (GetAppResourcesPath m st env fsys)"
    by (simp add: GetAppResourcesPath_def linux_ignores_injected
        with_statics_def b split: build_section.splits prod.splits option.splits)
qed

text \<open>
  C10. In the Android section, \<open>SetFilesDirPath\<close> and \<open>SetCacheDirPath\<close> store
  their argument in \<open>s_filesDirPath\<close> and \<open>s_cacheDirPath\<close> and do nothing else,
  and no getter reads either variable: each of \<open>GetRoamingDataPath\<close>,
  \<open>GetPersonalDataPath\<close>, \<open>GetCachePath\<close> and \<open>GetAppResourcesPath\<close>, called after
  a setter, has the result, the effect on the file system and the events it has without
  the setter, and leaves the stored value where it is.
\<close>

theorem setters_only_store:
  assumes android: "section_of m = SecAndroid"
  shows "SetFilesDirPath m x st = Some (st\<lparr>s_filesDirPath := x\<rparr>) \<and>
         SetCacheDirPath m x st = Some (st\<lparr>s_cacheDirPath := x\<rparr>) \<and>
         (\<forall>G \<in> {GetRoamingDataPath, GetPersonalDataPath, GetCachePath, GetAppResourcesPath}.
            G m (st\<lparr>s_filesDirPath := x\<rparr>) env fsys =
              with_statics (\<lambda>s. s\<lparr>s_filesDirPath := x\<rparr>) (G m st env fsys) \<and>
            G m (st\<lparr>s_cacheDirPath := x\<rparr>) env fsys =
              with_statics (\<lambda>s. s\<lparr>s_cacheDirPath := x\<rparr>) (G m st env fsys))"
proof (intro conjI ballI)
  show "SetFilesDirPath m x st = Some (st\<lparr>s_filesDirPath := x\<rparr>)"
    using android by (simp add: SetFilesDirPath_def)
  show "SetCacheDirPath m x st = Some (st\<lparr>s_cacheDirPath := x\<rparr>)"
    using android by (simp add: SetCacheDirPath_def)
next
  fix G assume "G \<in> {GetRoamingDataPath, GetPersonalDataPath, GetCachePath, GetAppResourcesPath}"
  then show "G m (st\<lparr>s_filesDirPath := x\<rparr>) env fsys =
              with_statics (\<lambda>s. s\<lparr>s_filesDirPath := x\<rparr>) (G m st env fsys)"
    using getters_ignore_injected[OF injected_files, of m x st env fsys] by auto
next
  fix G assume "G \<in> {GetRoamingDataPath, GetPersonalDataPath, GetCachePath, GetAppResourcesPath}"
  then show "G m (st\<lparr>s_cacheDirPath := x\<rparr>) env fsys =
              with_statics (\<lambda>s. s\<lparr>s_cacheDirPath := x\<rparr>) (G m st env fsys)"
    using getters_ignore_injected[OF injected_cache, of m x st env fsys] by auto
qed

theorem setters_only_store_witness:
  "section_of android_build = SecAndroid \<and>
   SetFilesDirPath android_build [''/'', ''data'', ''files''] initial_statics =
     Some (initial_statics\<lparr>s_filesDirPath := [''/'', ''data'', ''files'']\<rparr>) \<and>
   GetCachePath android_build (initial_statics\<lparr>s_filesDirPath := [''/'', ''data'', ''files'']\<rparr>)
       installed_env readonly_install_fs =
     with_statics (\<lambda>s. s\<lparr>s_filesDirPath := [''/'', ''data'', ''files'']\<rparr>)
       (GetCachePath android_build initial_statics installed_env readonly_install_fs) \<and>
   GetCachePath android_build (initial_statics\<lparr>s_cacheDirPath := [''/'', ''data'', ''cache'']\<rparr>)
       installed_env readonly_install_fs =
     with_statics (\<lambda>s. s\<lparr>s_cacheDirPath := [''/'', ''data'', ''cache'']\<rparr>)
       (GetCachePath android_build initial_statics installed_env readonly_install_fs)"
proof -
  have a: "section_of android_build = SecAndroid"
    by (simp add: section_of_def android_build_def)
  have m: "GetCachePath \<in> {GetRoamingDataPath, GetPersonalDataPath, GetCachePath, GetAppResourcesPath}"
    by simp
  from setters_only_store[OF a, of "[''/'', ''data'', ''files'']" initial_statics installed_env readonly_install_fs]
    setters_only_store[OF a, of "[''/'', ''data'', ''cache'']" initial_statics installed_env readonly_install_fs]
    a m
  show ?thesis by blast
qed

section \<open>C4: the executable's directory\<close>




section \<open>C6: the base directory\<close>

text \<open>
  C6. The first call of \<open>GetTeknoParrotBaseDirectory\<close> (the flag \<open>initialized\<close> is
  not set) returns whenever \<open>GetExecutableDirectory\<close> does: its value is the
  executable's directory joined with \<open>TeknoParrot\<close>, it stores that value and sets
  the flag, it probes the directory and, when the probe does not find it, calls
  \<open>fs::create_directories\<close>; and every call after it, in whatever environment and
  file system, returns that same value, leaves the statics and the file system as they
  are, and asks nothing of the file system. A first call in which
  \<open>GetExecutableDirectory\<close> throws stores nothing and leaves the flag unset. A call
  that finds the flag set returns the stored value and touches nothing.
\<close>

theorem GetTeknoParrotBaseDirectory_first_call_wins:
  "(\<not> initialized st \<longrightarrow>
      (\<forall>d. GetExecutableDirectory m env = Inr d \<longrightarrow>
         GetTeknoParrotBaseDirectory m st env fsys =
           (Inr (path_join d [''TeknoParrot'']),
            st\<lparr>teknoParrotPath := path_join d [''TeknoParrot''], initialized := True\<rparr>,
            (if fst (fs_exists fsys (path_join d [''TeknoParrot''])) then fsys
             else fs_create_directories fsys (path_join d [''TeknoParrot''])),
            (if fst (fs_exists fsys (path_join d [''TeknoParrot'']))
             then [Probe (path_join d [''TeknoParrot''])]
             else [Probe (path_join d [''TeknoParrot'']),
                   CreateAll (path_join d [''TeknoParrot''])])) \<and>
         (\<forall>env' fsys'.
            GetTeknoParrotBaseDirectory m
              (st\<lparr>teknoParrotPath := path_join d [''TeknoParrot''], initialized := True\<rparr>)
              env' fsys' =
            (Inr (path_join d [''TeknoParrot'']),
             st\<lparr>teknoParrotPath := path_join d [''TeknoParrot''], initialized := True\<rparr>,
             fsys', []))) \<and>
      (\<forall>e. GetExecutableDirectory m env = Inl e \<longrightarrow>
         GetTeknoParrotBaseDirectory m st env fsys = (Inl e, st, fsys, []))) \<and>
   (initialized st \<longrightarrow>
      GetTeknoParrotBaseDirectory m st env fsys = (Inr (teknoParrotPath st), st, fsys, []))"
proof (intro conjI impI allI)
  fix d
  assume "\<not> initialized st" "GetExecutableDirectory m env = Inr d"
  then show "GetTeknoParrotBaseDirectory m st env fsys =
           (Inr (path_join d [''TeknoParrot'']),
            st\<lparr>teknoParrotPath := path_join d [''TeknoParrot''], initialized := True\<rparr>,
            (if fst (fs_exists fsys (path_join d [''TeknoParrot''])) then fsys
             else fs_create_directories fsys (path_join d [''TeknoParrot''])),
            (if fst (fs_exists fsys (path_join d [''TeknoParrot'']))
             then [Probe (path_join d [''TeknoParrot''])]
             else [Probe (path_join d [''TeknoParrot'']),
                   CreateAll (path_join d [''TeknoParrot''])]))"
    by (cases "fs_exists fsys (path_join d [''TeknoParrot''])")
       (simp add: GetTeknoParrotBaseDirectory_def Let_def)
next
  fix d env' fsys'
  show "GetTeknoParrotBaseDirectory m
              (st\<lparr>teknoParrotPath := path_join d [''TeknoParrot''], initialized := True\<rparr>)
              env' fsys' =
            (Inr (path_join d [''TeknoParrot'']),
             st\<lparr>teknoParrotPath := path_join d [''TeknoParrot''], initialized := True\<rparr>,
             fsys', [])"
    by (simp add: GetTeknoParrotBaseDirectory_def)
next
  fix e
  assume "\<not> initialized st" "GetExecutableDirectory m env = Inl e"
  then show "GetTeknoParrotBaseDirectory m st env fsys = (Inl e, st, fsys, [])"
    by (simp add: GetTeknoParrotBaseDirectory_def)
next
  assume "initialized st"
  then show "GetTeknoParrotBaseDirectory m st env fsys = (Inr (teknoParrotPath st), st, fsys, [])"
    by (simp add: GetTeknoParrotBaseDirectory_def)
qed

theorem GetTeknoParrotBaseDirectory_first_call_wins_witness:
  "GetTeknoParrotBaseDirectory windows_build initial_statics installed_env
       (plain_fs {[''/'', ''opt'', ''app''], [''/'', ''opt''], [''/'']}) =
     (Inr [''/'', ''opt'', ''app'', ''TeknoParrot''],
      initial_statics\<lparr>teknoParrotPath := [''/'', ''opt'', ''app'', ''TeknoParrot''], initialized := True\<rparr>,
      plain_fs {[''/'', ''opt'', ''app'', ''TeknoParrot''], [''/'', ''opt'', ''app''], [''/'', ''opt''], [''/'']},
      [Probe [''/'', ''opt'', ''app'', ''TeknoParrot''], CreateAll [''/'', ''opt'', ''app'', ''TeknoParrot'']]) \<and>
   (\<forall>env' fsys'. GetTeknoParrotBaseDirectory windows_build
       (initial_statics\<lparr>teknoParrotPath := [''/'', ''opt'', ''app'', ''TeknoParrot''], initialized := True\<rparr>)
       env' fsys' =
     (Inr [''/'', ''opt'', ''app'', ''TeknoParrot''],
      initial_statics\<lparr>teknoParrotPath := [''/'', ''opt'', ''app'', ''TeknoParrot''], initialized := True\<rparr>,
      fsys', [])) \<and>
   GetTeknoParrotBaseDirectory posix_build initial_statics (failed_query_env None)
       (plain_fs {[''/'']}) =
     (Inl (FilesystemError []), initial_statics, plain_fs {[''/'']}, [])"
proof -
  let ?fs = "plain_fs {[''/'', ''opt'', ''app''], [''/'', ''opt''], [''/'']}"
  let ?tp = "[''/'', ''opt'', ''app'', ''TeknoParrot'']"
  have i: "\<not> initialized initial_statics" by (simp add: initial_statics_def)
  have g: "GetExecutableDirectory windows_build installed_env = Inr [''/'', ''opt'', ''app'']"
    by (simp add: GetExecutableDirectory_def windows_build_def installed_env_def parent_path_def)
  have j: "path_join [''/'', ''opt'', ''app''] [''TeknoParrot''] = ?tp"
    by (simp add: path_join_def)
  have x: "\<not> fst (fs_exists ?fs ?tp)"
    by (simp add: fs_exists_def present_def is_dir_def step_def plain_fs_def)
  have c: "fs_create_directories ?fs ?tp =
      plain_fs {?tp, [''/'', ''opt'', ''app''], [''/'', ''opt''], [''/'']}"
    by (simp add: fs_create_directories_def fs_create_directory_def is_dir_def step_def
        plain_fs_def)
  from GetTeknoParrotBaseDirectory_first_call_wins[of initial_statics windows_build installed_env ?fs]
    i g
  have "GetTeknoParrotBaseDirectory windows_build initial_statics installed_env ?fs =
           (Inr (path_join [''/'', ''opt'', ''app''] [''TeknoParrot'']),
            initial_statics\<lparr>teknoParrotPath := path_join [''/'', ''opt'', ''app''] [''TeknoParrot''],
              initialized := True\<rparr>,
            (if fst (fs_exists ?fs (path_join [''/'', ''opt'', ''app''] [''TeknoParrot''])) then ?fs
             else fs_create_directories ?fs (path_join [''/'', ''opt'', ''app''] [''TeknoParrot''])),
            (if fst (fs_exists ?fs (path_join [''/'', ''opt'', ''app''] [''TeknoParrot'']))
             then [Probe (path_join [''/'', ''opt'', ''app''] [''TeknoParrot''])]
             else [Probe (path_join [''/'', ''opt'', ''app''] [''TeknoParrot'']),
                   CreateAll (path_join [''/'', ''opt'', ''app''] [''TeknoParrot''])])) \<and>
         (\<forall>env' fsys'.
            GetTeknoParrotBaseDirectory windows_build
              (initial_statics\<lparr>teknoParrotPath := path_join [''/'', ''opt'', ''app''] [''TeknoParrot''],
                 initialized := True\<rparr>)
              env' fsys' =
            (Inr (path_join [''/'', ''opt'', ''app''] [''TeknoParrot'']),
             initial_statics\<lparr>teknoParrotPath := path_join [''/'', ''opt'', ''app''] [''TeknoParrot''],
               initialized := True\<rparr>,
             fsys', []))" by blast
  then have A: "GetTeknoParrotBaseDirectory windows_build initial_statics installed_env ?fs =
     (Inr ?tp, initial_statics\<lparr>teknoParrotPath := ?tp, initialized := True\<rparr>,
      plain_fs {?tp, [''/'', ''opt'', ''app''], [''/'', ''opt''], [''/'']},
      [Probe ?tp, CreateAll ?tp]) \<and>
   (\<forall>env' fsys'. GetTeknoParrotBaseDirectory windows_build
       (initial_statics\<lparr>teknoParrotPath := ?tp, initialized := True\<rparr>) env' fsys' =
     (Inr ?tp, initial_statics\<lparr>teknoParrotPath := ?tp, initialized := True\<rparr>, fsys', []))"
    unfolding j using x c by simp
  have t: "GetExecutableDirectory posix_build (failed_query_env None) = Inl (FilesystemError [])"
    by (simp add: GetExecutableDirectory_def fs_current_path_def posix_build_def
        failed_query_env_def)
  from GetTeknoParrotBaseDirectory_first_call_wins[of initial_statics posix_build
      "failed_query_env None" "plain_fs {[''/'']}"] i t
  have B: "GetTeknoParrotBaseDirectory posix_build initial_statics (failed_query_env None)
       (plain_fs {[''/'']}) =
     (Inl (FilesystemError []), initial_statics, plain_fs {[''/'']}, [])" by blast
  from A B show ?thesis by simp
qed

section \<open>C5: the candidates of GetAppResourcesPath\<close>

text \<open>
  What the section of Linux, FreeBSD and Emscripten does on hosts where \<open>APPDIR\<close> is
  set whenever \<open>APPIMAGE\<close> is. The candidates are taken in this order. (1)
  \<open>APPIMAGE\<close> is set and \<open>APPDIR/usr/share\<close> exists: that path is returned, and the
  only query is the probe of that path. (2) Else, \<open>/app/share\<close> exists: that path is
  returned, whatever the executable's directory is. (3) Else the result is that of
  \<open>GetExecutableDirectory\<close>; in particular so when \<open>APPIMAGE\<close> is not set and
  \<open>/app/share\<close> is not there. "Exists" is \<open>fs::exists\<close> answering true with no
  error.
\<close>

lemma GetAppResourcesPath_candidate_order:
  assumes sec: "section_of m = SecLinux"
  shows "(\<forall>d. getenv env ''APPIMAGE'' \<noteq> None \<and> getenv env ''APPDIR'' = Some d \<and>
              fs_exists fsys (path_join d [''usr'', ''share'']) = (True, 0) \<longrightarrow>
            GetAppResourcesPath m st env fsys =
              Some (Inr (path_join d [''usr'', ''share'']), st, fsys, [Probe (path_join d [''usr'', ''share''])])) \<and>
         (\<forall>d. (getenv env ''APPIMAGE'' = None \<or>
               getenv env ''APPDIR'' = Some d \<and> fs_exists fsys (path_join d [''usr'', ''share'']) \<noteq> (True, 0)) \<and>
              fs_exists fsys [''/'', ''app'', ''share''] = (True, 0) \<longrightarrow>
            (\<exists>ev. GetAppResourcesPath m st env fsys = Some (Inr [''/'', ''app'', ''share''], st, fsys, ev) \<and>
                  set ev \<subseteq> {Probe (path_join d [''usr'', ''share'']), Probe [''/'', ''app'', ''share'']})) \<and>
         (\<forall>d. (getenv env ''APPIMAGE'' = None \<or>
               getenv env ''APPDIR'' = Some d \<and> fs_exists fsys (path_join d [''usr'', ''share'']) \<noteq> (True, 0)) \<and>
              fs_exists fsys [''/'', ''app'', ''share''] \<noteq> (True, 0) \<longrightarrow>
            (\<exists>ev. GetAppResourcesPath m st env fsys = Some (GetExecutableDirectory m env, st, fsys, ev))) \<and>
         (getenv env ''APPIMAGE'' = None \<and> \<not> present fsys [''/'', ''app'', ''share''] \<longrightarrow>
            GetAppResourcesPath m st env fsys =
              Some (GetExecutableDirectory m env, st, fsys, [Probe [''/'', ''app'', ''share'']]))"
proof (intro conjI allI impI)
  fix d
  assume "getenv env ''APPIMAGE'' \<noteq> None \<and> getenv env ''APPDIR'' = Some d \<and>
              fs_exists fsys (path_join d [''usr'', ''share'']) = (True, 0)"
  then show "GetAppResourcesPath m st env fsys =
              Some (Inr (path_join d [''usr'', ''share'']), st, fsys, [Probe (path_join d [''usr'', ''share''])])"
    using sec by (auto simp: GetAppResourcesPath_def GetAppResourcesPath_linux_def Let_def)
next
  fix d
  assume a: "(getenv env ''APPIMAGE'' = None \<or>
               getenv env ''APPDIR'' = Some d \<and> fs_exists fsys (path_join d [''usr'', ''share'']) \<noteq> (True, 0)) \<and>
              fs_exists fsys [''/'', ''app'', ''share''] = (True, 0)"
  then have f: "flatpak_or_executable m st env fsys =
      (Inr [''/'', ''app'', ''share''], st, fsys, [Probe [''/'', ''app'', ''share'']])"
    by (simp add: flatpak_or_executable_def Let_def)
  from a show "\<exists>ev. GetAppResourcesPath m st env fsys = Some (Inr [''/'', ''app'', ''share''], st, fsys, ev) \<and>
                  set ev \<subseteq> {Probe (path_join d [''usr'', ''share'']), Probe [''/'', ''app'', ''share'']}"
    using sec f
    by (cases "fs_exists fsys (path_join d [''usr'', ''share''])")
       (auto simp: GetAppResourcesPath_def GetAppResourcesPath_linux_def Let_def)
next
  fix d
  assume a: "(getenv env ''APPIMAGE'' = None \<or>
               getenv env ''APPDIR'' = Some d \<and> fs_exists fsys (path_join d [''usr'', ''share'']) \<noteq> (True, 0)) \<and>
              fs_exists fsys [''/'', ''app'', ''share''] \<noteq> (True, 0)"
  then have f: "flatpak_or_executable m st env fsys =
      (GetExecutableDirectory m env, st, fsys, [Probe [''/'', ''app'', ''share'']])"
    by (cases "fs_exists fsys [''/'', ''app'', ''share'']") (auto simp: flatpak_or_executable_def Let_def)
  from a show "\<exists>ev. GetAppResourcesPath m st env fsys = Some (GetExecutableDirectory m env, st, fsys, ev)"
    using sec f
    by (cases "fs_exists fsys (path_join d [''usr'', ''share''])")
       (auto simp: GetAppResourcesPath_def GetAppResourcesPath_linux_def Let_def)
next
  assume a: "getenv env ''APPIMAGE'' = None \<and> \<not> present fsys [''/'', ''app'', ''share'']"
  then have "fs_exists fsys [''/'', ''app'', ''share''] \<noteq> (True, 0)"
    by (simp add: fs_exists_def)
  then have f: "flatpak_or_executable m st env fsys =
      (GetExecutableDirectory m env, st, fsys, [Probe [''/'', ''app'', ''share'']])"
    by (cases "fs_exists fsys [''/'', ''app'', ''share'']") (auto simp: flatpak_or_executable_def Let_def)
  from a show "GetAppResourcesPath m st env fsys =
              Some (GetExecutableDirectory m env, st, fsys, [Probe [''/'', ''app'', ''share'']])"
    using sec f by (simp add: GetAppResourcesPath_def GetAppResourcesPath_linux_def Let_def)
qed


text \<open>A value of \<open>APPDIR\<close> that ends with a separator names the same candidate.\<close>

lemma GetAppResourcesPath_appdir_trailing_separator:
  "path_join [''/'', ''tmp'', ''mnt'', []] [''usr'', ''share''] =
     [''/'', ''tmp'', ''mnt'', ''usr'', ''share'']"
  by (simp add: path_join_def)

lemma GetAppResourcesPath_null_appdir:
  assumes "section_of m = SecLinux" "getenv env ''APPIMAGE'' \<noteq> None" "getenv env ''APPDIR'' = None"
  shows "GetAppResourcesPath m st env fsys = Some (Inl NullPointer, st, fsys, [])"
  using assms by (simp add: GetAppResourcesPath_def GetAppResourcesPath_linux_def)

text \<open>
  C5, at the host the code fails on. \<open>APPIMAGE\<close> is set, \<open>APPDIR\<close> is not, and
  \<open>/app/share\<close> exists. The first candidate does not match (the marker declares no
  resource path), so the second, \<open>/app/share\<close>, is the first matching, existing
  candidate. The code does not get there: line 231 hands the null pointer that
  \<open>getenv("APPDIR")\<close> returns to the constructor of \<open>fs::path\<close>, before any
  candidate is probed.
\<close>

theorem GetAppResourcesPath_null_appdir_run:
  "GetAppResourcesPath posix_build initial_statics appimage_only_env
       (plain_fs {[''/'', ''app'', ''share''], [''/'', ''app''], [''/'']}) =
     Some (Inl NullPointer, initial_statics,
           plain_fs {[''/'', ''app'', ''share''], [''/'', ''app''], [''/'']}, []) \<and>
   fs_exists (plain_fs {[''/'', ''app'', ''share''], [''/'', ''app''], [''/'']})
       [''/'', ''app'', ''share''] = (True, 0) \<and>
   getenv appimage_only_env ''APPDIR'' = None"
  by (simp add: GetAppResourcesPath_def GetAppResourcesPath_linux_def section_of_def
      fs_exists_def present_def is_dir_def step_def
      posix_build_def appimage_only_env_def plain_fs_def)

section \<open>C7: from a path to its native string and back\<close>

lemma recombine2: "c div 64 * 64 + c mod 64 = (c::nat)"
  by simp

lemma recombine3: "c div 4096 * 4096 + c div 64 mod 64 * 64 + c mod 64 = (c::nat)"
proof -
  have a: "c div 64 mod 64 * 64 + c mod 64 = c mod 4096"
    using mod_mult2_eq[of c 64 64] by simp
  have b: "c div 4096 * 4096 + c mod 4096 = c" by simp
  from a b show ?thesis by linarith
qed

lemma recombine4:
  "c div 262144 * 262144 + c div 4096 mod 64 * 4096 + c div 64 mod 64 * 64 + c mod 64 = (c::nat)"
proof -
  have a: "c div 64 mod 64 * 64 + c mod 64 = c mod 4096"
    using mod_mult2_eq[of c 64 64] by simp
  have b: "c div 4096 mod 64 * 4096 + c mod 4096 = c mod 262144"
    using mod_mult2_eq[of c 4096 64] by simp
  have d: "c div 262144 * 262144 + c mod 262144 = c" by simp
  from a b d show ?thesis by linarith
qed

lemma decode1: "c < 128 \<Longrightarrow> utf8_decode (utf8_encode c @ rest) = map_option ((#) c) (utf8_decode rest)"
  by (simp add: utf8_encode_def)

lemma decode2:
  assumes "128 \<le> c" "c < 2048"
  shows "utf8_decode (utf8_encode c @ rest) = map_option ((#) c) (utf8_decode rest)"
proof -
  from assms have e: "utf8_encode c = [192 + c div 64, 128 + c mod 64]"
    by (simp add: utf8_encode_def)
  from assms have d: "c div 64 < 32" by simp
  have m: "c mod 64 < 64" by simp
  show ?thesis unfolding e using d m assms
    by (simp add: continuation_def recombine2)
qed

lemma decode3:
  assumes "2048 \<le> c" "c < 65536" "valid_scalar c"
  shows "utf8_decode (utf8_encode c @ rest) = map_option ((#) c) (utf8_decode rest)"
proof -
  from assms have e: "utf8_encode c = [224 + c div 4096, 128 + c div 64 mod 64, 128 + c mod 64]"
    by (simp add: utf8_encode_def)
  from assms have d: "c div 4096 < 16" by simp
  have m: "c mod 64 < 64" "c div 64 mod 64 < 64" by simp_all
  show ?thesis unfolding e using d m assms
    by (simp add: continuation_def recombine3)
qed

lemma decode4:
  assumes "65536 \<le> c" "valid_scalar c"
  shows "utf8_decode (utf8_encode c @ rest) = map_option ((#) c) (utf8_decode rest)"
proof -
  from assms have e: "utf8_encode c =
      [240 + c div 262144, 128 + c div 4096 mod 64, 128 + c div 64 mod 64, 128 + c mod 64]"
    by (simp add: utf8_encode_def)
  from assms have "c < 1114112" by (simp add: valid_scalar_def)
  then have d: "c div 262144 < 8" by simp
  have m: "c mod 64 < 64" "c div 64 mod 64 < 64" "c div 4096 mod 64 < 64" by simp_all
  show ?thesis unfolding e using d m assms
    by (simp add: continuation_def recombine4)
qed

lemma utf8_decode_encode:
  assumes "valid_scalar c"
  shows "utf8_decode (utf8_encode c @ rest) = map_option ((#) c) (utf8_decode rest)"
proof -
  consider "c < 128" | "128 \<le> c" "c < 2048" | "2048 \<le> c" "c < 65536" | "65536 \<le> c"
    by linarith
  then show ?thesis
  proof cases
    case 1
    then show ?thesis by (rule decode1)
  next
    case 2
    then show ?thesis by (rule decode2)
  next
    case 3
    then show ?thesis using assms by (rule decode3)
  next
    case 4
    then show ?thesis using assms by (rule decode4)
  qed
qed

lemma utf8_encode_bytes:
  assumes v: "valid_scalar c" and b: "b \<in> set (utf8_encode c)"
  shows "b < 256"
proof -
  from v have "c < 1114112" by (simp add: valid_scalar_def)
  then have d4: "c div 262144 < 8" by simp
  have m: "c mod 64 < 64" "c div 64 mod 64 < 64" "c div 4096 mod 64 < 64" by simp_all
  consider "c < 128" | "128 \<le> c" "c < 2048" | "2048 \<le> c" "c < 65536" | "65536 \<le> c"
    by linarith
  then show ?thesis
  proof cases
    case 1
    with b show ?thesis by (simp add: utf8_encode_def)
  next
    case 2
    then have "c div 64 < 32" by simp
    with 2 b m show ?thesis by (auto simp: utf8_encode_def)
  next
    case 3
    then have "c div 4096 < 16" by simp
    with 3 b m show ?thesis by (auto simp: utf8_encode_def)
  next
    case 4
    with b m d4 show ?thesis by (auto simp: utf8_encode_def)
  qed
qed

lemma utf8_decode_concat:
  "list_all valid_scalar w \<Longrightarrow> utf8_decode (concat (map utf8_encode w)) = Some w"
proof (induction w)
  case Nil
  show ?case by simp
next
  case (Cons c w)
  then have v: "valid_scalar c" and ih: "utf8_decode (concat (map utf8_encode w)) = Some w"
    by simp_all
  have "utf8_decode (utf8_encode c @ concat (map utf8_encode w)) =
      map_option ((#) c) (utf8_decode (concat (map utf8_encode w)))"
    using v by (rule utf8_decode_encode)
  with ih show ?case by simp
qed

lemma of_char_char_of_bytes:
  "\<forall>b\<in>set bs. b < 256 \<Longrightarrow> map (of_char :: char \<Rightarrow> nat) (map char_of bs) = bs"
  by (induction bs) simp_all

lemma utf8_bytes_round_trip:
  assumes "list_all valid_scalar cs"
  shows "utf8_decode (map of_char (map char_of (concat (map utf8_encode cs)))) = Some cs"
proof -
  have "\<forall>b\<in>set (concat (map utf8_encode cs)). b < 256"
  proof
    fix b assume "b \<in> set (concat (map utf8_encode cs))"
    then obtain c where "c \<in> set cs" "b \<in> set (utf8_encode c)" by auto
    with assms show "b < 256" by (auto simp: list_all_iff intro: utf8_encode_bytes)
  qed
  then have "map (of_char :: char \<Rightarrow> nat) (map char_of (concat (map utf8_encode cs))) =
      concat (map utf8_encode cs)" by (rule of_char_char_of_bytes)
  with utf8_decode_concat[OF assms] show ?thesis by simp
qed

lemma surrogate_pair:
  assumes "high_surrogate u" "low_surrogate l"
  shows "valid_scalar (65536 + (u - 55296) * 1024 + (l - 56320))"
    and "utf16_encode (65536 + (u - 55296) * 1024 + (l - 56320)) = [u, l]"
proof -
  from assms have u: "55296 \<le> u" "u - 55296 < 1024" and l: "56320 \<le> l" "l - 56320 < 1024"
    by (auto simp: high_surrogate_def low_surrogate_def)
  from u l have "(u - 55296) * 1024 + (l - 56320) < 1048576" by linarith
  then show "valid_scalar (65536 + (u - 55296) * 1024 + (l - 56320))"
    by (simp add: valid_scalar_def)
  have d: "((u - 55296) * 1024 + (l - 56320)) div 1024 = u - 55296" using l(2) by simp
  have m: "((u - 55296) * 1024 + (l - 56320)) mod 1024 = l - 56320" using l(2) by simp
  have s: "65536 + (u - 55296) * 1024 + (l - 56320) - 65536 = (u - 55296) * 1024 + (l - 56320)"
    by simp
  show "utf16_encode (65536 + (u - 55296) * 1024 + (l - 56320)) = [u, l]"
    unfolding utf16_encode_def s d m using u(1) l(1) by simp
qed

lemma single_unit:
  assumes "\<not> high_surrogate u" "\<not> low_surrogate u" "u < 65536"
  shows "valid_scalar u" and "utf16_encode u = [u]"
  using assms by (auto simp: valid_scalar_def high_surrogate_def low_surrogate_def utf16_encode_def)

lemma utf16_round_trip:
  "paired_surrogates us \<Longrightarrow> \<forall>u\<in>set us. u < 65536 \<Longrightarrow>
     \<exists>cs. utf16_decode us = Some cs \<and> list_all valid_scalar cs \<and>
          concat (map utf16_encode cs) = us"
proof (induction us rule: paired_surrogates.induct)
  case 1
  show ?case by simp
next
  case (2 u us)
  show ?case
  proof (cases "high_surrogate u")
    case True
    with "2.prems"(1) obtain l r where us: "us = l # r" and low: "low_surrogate l"
      and pr: "paired_surrogates r"
      by (cases us) auto
    from "2.prems"(2) us have "\<forall>u\<in>set r. u < 65536" by simp
    from "2.IH"(1)[OF True us pr this] obtain cs where
      cs: "utf16_decode r = Some cs" "list_all valid_scalar cs" "concat (map utf16_encode cs) = r"
      by blast
    let ?c = "65536 + (u - 55296) * 1024 + (l - 56320)"
    from surrogate_pair[OF True low] cs us True low
    have "utf16_decode (u # us) = Some (?c # cs) \<and> list_all valid_scalar (?c # cs) \<and>
        concat (map utf16_encode (?c # cs)) = u # us" by simp
    then show ?thesis by blast
  next
    case False
    with "2.prems"(1) have nl: "\<not> low_surrogate u" and pr: "paired_surrogates us" by simp_all
    from "2.prems"(2) have b: "u < 65536" "\<forall>u\<in>set us. u < 65536" by simp_all
    from "2.IH"(2)[OF False pr b(2)] obtain cs where
      cs: "utf16_decode us = Some cs" "list_all valid_scalar cs" "concat (map utf16_encode cs) = us"
      by blast
    from single_unit[OF False nl b(1)] cs False nl
    have "utf16_decode (u # us) = Some (u # cs) \<and> list_all valid_scalar (u # cs) \<and>
        concat (map utf16_encode (u # cs)) = u # us" by simp
    then show ?thesis by blast
  qed
qed

lemma Utf8_round_trip:
  assumes "paired_surrogates (map unat w)"
  shows "\<exists>s. Utf8_ConvertTo w = Some s \<and> Utf8_ConvertFrom s = Some w"
proof -
  have "\<forall>u\<in>set (map unat w). u < 65536"
  proof
    fix u assume "u \<in> set (map unat w)"
    then obtain x :: "16 word" where "u = unat x" by auto
    moreover have "unat x < 2 ^ LENGTH(16)" by (rule unsigned_less)
    ultimately show "u < 65536" by simp
  qed
  from utf16_round_trip[OF assms this] obtain cs where
    cs: "utf16_decode (map unat w) = Some cs" "list_all valid_scalar cs"
      "concat (map utf16_encode cs) = map unat w" by blast
  have words: "map of_nat (map unat w) = w" by (induction w) simp_all
  from cs(1) have enc: "Utf8_ConvertTo w = Some (map char_of (concat (map utf8_encode cs)))"
    by (simp add: Utf8_ConvertTo_def)
  from utf8_bytes_round_trip[OF cs(2)] cs(3) words
  have "Utf8_ConvertFrom (map char_of (concat (map utf8_encode cs))) = Some w"
    by (simp add: Utf8_ConvertFrom_def)
  with enc show ?thesis by blast
qed

text \<open>
  C7. For every path made of valid portable characters (any byte string; any wide
  string that is well-formed UTF-16, surrogate pairs included),
  \<open>GetNativeStringFromPath\<close> returns a string, and \<open>GetPathFromNativeString\<close> of
  that string is the path again: both directions are the identity where the native
  string type is \<open>std::string\<close>, and UTF-8 is written and read back where it is
  \<open>std::wstring\<close>.
\<close>

theorem native_string_round_trip:
  "portable p \<Longrightarrow>
     \<exists>s. GetNativeStringFromPath p = Some s \<and>
         GetPathFromNativeString (native_type p) s = Some p"
proof (cases p)
  case (NarrowPath s)
  then show ?thesis
    by (simp add: GetPathFromNativeString_def GetNativeStringFromPath_def
        GetPathFromNativeStringInternal_string_def GetNativeStringFromPathInternal_string_def)
next
  case (WidePath w)
  assume "portable p"
  with WidePath have "paired_surrogates (map unat w)" by (simp add: portable_def)
  from Utf8_round_trip[OF this] WidePath show ?thesis
    by (auto simp: GetPathFromNativeString_def GetNativeStringFromPath_def
        GetPathFromNativeStringInternal_wstring_def GetNativeStringFromPathInternal_wstring_def)
qed

theorem native_string_round_trip_witness:
  "portable (WidePath [8364, 65, 55357, 56832]) \<and>
   (\<exists>s. GetNativeStringFromPath (WidePath [8364, 65, 55357, 56832]) = Some s \<and>
        GetPathFromNativeString StdWString s = Some (WidePath [8364, 65, 55357, 56832])) \<and>
   portable (NarrowPath ''/opt/app'') \<and>
   (\<exists>s. GetNativeStringFromPath (NarrowPath ''/opt/app'') = Some s \<and>
        GetPathFromNativeString StdString s = Some (NarrowPath ''/opt/app''))"
proof -
  have w: "portable (WidePath [8364, 65, 55357, 56832])"
    by (simp add: portable_def high_surrogate_def low_surrogate_def)
  have n: "portable (NarrowPath ''/opt/app'')"
    by (simp add: portable_def)
  from native_string_round_trip[OF w] native_string_round_trip[OF n] w n
  show ?thesis by simp
qed

text \<open>An unpaired surrogate is rejected: such a path is not portable.\<close>

lemma unpaired_surrogate_rejected:
  "Utf8_ConvertTo [55357] = None \<and> \<not> portable (WidePath [55357])"
  by (simp add: Utf8_ConvertTo_def portable_def high_surrogate_def)

end
